theory Spec2Isabelle
  imports Complex_Main
begin

section \<open>Python values, arrays and errors\<close>

text \<open>
  The module \<^verbatim>\<open>geomstats/geometry/product_manifold.py\<close> composes factor spaces
  into a product (\<^verbatim>\<open>ProductManifold\<close>) or a power (\<^verbatim>\<open>NFoldManifold\<close>).
  All numeric work is delegated to the array backend \<^verbatim>\<open>gs\<close> (numpy) and to the
  factor spaces. Floats are never computed with in this module, only passed on, so a
  float is a \<^typ>\<open>real\<close> that is carried around.

  An array is its shape together with its elements in row-major order, as the backend
  stores it. Elements are dynamically typed.
\<close>

datatype scalar = Bo bool | In int | Fl real

datatype ndarray = NdArray (arr_shape: "nat list") (arr_data: "scalar list")

datatype pyval = PyBool bool | PyInt int | PyFloat real | PyArray ndarray

text \<open>
  Exceptions are values. \<open>FactorError\<close> stands for any exception raised inside a
  factor space's own operation. \<open>NotImplementedError\<close> is the Python exception that
  the specification calls NotSupportedError. \<open>ConfigError\<close> is raised by the
  parameter checks of \<^verbatim>\<open>geomstats.errors\<close>. \<open>FactorOperationError\<close> is the
  wrapper named by the specification (factor index, operation name, underlying error);
  no function of the module constructs it.
\<close>

datatype error =
    ValueError
  | TypeError
  | IndexError
  | AxisError
  | AttributeError
  | NotImplementedError
  | ConfigError
  | UnboundLocalError
  | FactorError string
  | FactorOperationError nat string error

type_synonym kwargs = "(string \<times> pyval) list"

text \<open>A call that reached a factor space: factor index, method name, keyword arguments.\<close>

datatype call = Call nat string kwargs

text \<open>
  A computation returns the calls it made on factor spaces, in order, and either the
  exception that ended it or its value.
\<close>

type_synonym 'a traced = "call list \<times> (error + 'a)"

definition t_return :: "'a \<Rightarrow> 'a traced" where
  "t_return x = ([], Inr x)"

definition t_raise :: "error \<Rightarrow> 'a traced" where
  "t_raise e = ([], Inl e)"

definition t_lift :: "error + 'a \<Rightarrow> 'a traced" where
  "t_lift r = ([], r)"

definition t_bind :: "'a traced \<Rightarrow> ('a \<Rightarrow> 'b traced) \<Rightarrow> 'b traced" where
  "t_bind m f =
     (case m of
        (cs, Inl e) \<Rightarrow> (cs, Inl e)
      | (cs, Inr x) \<Rightarrow> (case f x of (cs', r) \<Rightarrow> (cs @ cs', r)))"

fun t_mapM :: "('a \<Rightarrow> 'b traced) \<Rightarrow> 'a list \<Rightarrow> 'b list traced" where
  "t_mapM f [] = t_return []"
| "t_mapM f (x # xs) =
     t_bind (f x) (\<lambda>y. t_bind (t_mapM f xs) (\<lambda>ys. t_return (y # ys)))"

fun e_mapM :: "('a \<Rightarrow> error + 'b) \<Rightarrow> 'a list \<Rightarrow> error + 'b list" where
  "e_mapM f [] = Inr []"
| "e_mapM f (x # xs) =
     (case f x of
        Inl e \<Rightarrow> Inl e
      | Inr y \<Rightarrow> (case e_mapM f xs of Inl e \<Rightarrow> Inl e | Inr ys \<Rightarrow> Inr (y # ys)))"

section \<open>The array backend\<close>

text \<open>
  The primitives of \<^verbatim>\<open>geomstats.backend\<close> that the module calls, with numpy's
  behaviour, including the exceptions numpy raises.
\<close>

fun truthy :: "scalar \<Rightarrow> bool" where
  "truthy (Bo b) = b"
| "truthy (In i) = (i \<noteq> 0)"
| "truthy (Fl r) = (r \<noteq> 0)"

definition asarray :: "pyval \<Rightarrow> ndarray" where
  "asarray v =
     (case v of
        PyBool b \<Rightarrow> NdArray [] [Bo b]
      | PyInt i \<Rightarrow> NdArray [] [In i]
      | PyFloat r \<Rightarrow> NdArray [] [Fl r]
      | PyArray a \<Rightarrow> a)"

text \<open>\<^verbatim>\<open>gs.cumsum\<close> on a list of integers: the running sum.\<close>

fun cumsum_from :: "int \<Rightarrow> int list \<Rightarrow> int list" where
  "cumsum_from acc [] = []"
| "cumsum_from acc (x # xs) = (acc + x) # cumsum_from (acc + x) xs"

definition gs_cumsum :: "int list \<Rightarrow> int list" where
  "gs_cumsum xs = cumsum_from 0 xs"

text \<open>A slice bound \<open>i\<close> on an axis of width \<open>w\<close>, as Python clamps it.\<close>

definition slice_bound :: "int \<Rightarrow> nat \<Rightarrow> nat" where
  "slice_bound i w = (if i < 0 then nat (max 0 (i + int w)) else min (nat i) w)"

text \<open>\<^verbatim>\<open>a[..., st:en]\<close>: the slice of the last axis.\<close>

definition slice_last :: "ndarray \<Rightarrow> int \<Rightarrow> int \<Rightarrow> ndarray" where
  "slice_last a st en =
     (let w = last (arr_shape a);
          outer = prod_list (butlast (arr_shape a));
          s = slice_bound st w;
          e = slice_bound en w;
          n = e - s
      in NdArray (butlast (arr_shape a) @ [n])
           (concat (map (\<lambda>ou. take n (drop (ou * w + s) (arr_data a))) [0..<outer])))"

text \<open>
  \<^verbatim>\<open>gs.split(value, indices, axis=-1)\<close>: with a list of \<open>k\<close> indices numpy returns
  \<open>k + 1\<close> sub-arrays, the slices between consecutive division points
  \<open>0, indices, width\<close>. A value with no axis to split raises.
\<close>

definition gs_split :: "pyval \<Rightarrow> int list \<Rightarrow> error + ndarray list" where
  "gs_split v indices =
     (case v of
        PyArray a \<Rightarrow>
          (if arr_shape a = [] then Inl IndexError
           else let div_points = 0 # indices @ [int (last (arr_shape a))]
                in Inr (map (\<lambda>(st, en). slice_last a st en) (zip div_points (tl div_points))))
      | _ \<Rightarrow> Inl TypeError)"

text \<open>An axis number checked against the number of axes; negative axes count from the end.\<close>

definition normalize_axis_index :: "int \<Rightarrow> nat \<Rightarrow> error + nat" where
  "normalize_axis_index axis ndim =
     (if - int ndim \<le> axis \<and> axis < int ndim
      then Inr (nat (if axis < 0 then axis + int ndim else axis))
      else Inl AxisError)"

text \<open>
  \<^verbatim>\<open>gs.stack(values, axis)\<close>: the values become arrays, which must be at least one
  and of one shape; the new axis of length \<open>m\<close> is inserted at position \<open>axis\<close> of the
  result. Element \<open>t\<close> of the result, with \<open>t = (ou * m + j) * inner + i\<close>, is element
  \<open>ou * inner + i\<close> of array \<open>j\<close>.
\<close>

definition gs_stack :: "pyval list \<Rightarrow> int \<Rightarrow> error + ndarray" where
  "gs_stack vals axis =
     (let arrays = map asarray vals in
      if arrays = [] then Inl ValueError
      else if \<not> list_all (\<lambda>a. arr_shape a = arr_shape (hd arrays)) arrays then Inl ValueError
      else
        (case normalize_axis_index axis (length (arr_shape (hd arrays)) + 1) of
           Inl e \<Rightarrow> Inl e
         | Inr k \<Rightarrow>
             (let s = arr_shape (hd arrays);
                  m = length arrays;
                  outer = prod_list (take k s);
                  inner = prod_list (drop k s)
              in Inr (NdArray (take k s @ [m] @ drop k s)
                   (map (\<lambda>t. arr_data (arrays ! ((t div inner) mod m))
                                ! ((t div (m * inner)) * inner + t mod inner))
                      [0..<outer * m * inner])))))"

text \<open>
  \<^verbatim>\<open>gs.all(a, axis)\<close>: logical AND along one axis. In this module the argument
  always has at least one axis; numpy lets axis 0 and -1 through for an array with none.
\<close>

definition gs_all :: "ndarray \<Rightarrow> int \<Rightarrow> error + ndarray" where
  "gs_all a axis =
     (if arr_shape a = [] then
        (if axis = 0 \<or> axis = - 1
         then Inr (NdArray [] (map (\<lambda>x. Bo (truthy x)) (arr_data a)))
         else Inl AxisError)
      else
        (case normalize_axis_index axis (length (arr_shape a)) of
           Inl e \<Rightarrow> Inl e
         | Inr k \<Rightarrow>
             (let s = arr_shape a;
                  m = s ! k;
                  outer = prod_list (take k s);
                  inner = prod_list (drop (Suc k) s)
              in Inr (NdArray (take k s @ drop (Suc k) s)
                   (map (\<lambda>t. Bo (list_all
                                  (\<lambda>j. truthy (arr_data a ! (((t div inner) * m + j) * inner + t mod inner)))
                                  [0..<m]))
                      [0..<outer * inner])))))"

text \<open>
  \<^verbatim>\<open>gs.concatenate(values, axis)\<close>: at least one array, none without axes, all of
  one shape except along \<open>axis\<close>.
\<close>

definition gs_concatenate :: "pyval list \<Rightarrow> int \<Rightarrow> error + ndarray" where
  "gs_concatenate vals axis =
     (let arrays = map asarray vals in
      if arrays = [] then Inl ValueError
      else if arr_shape (hd arrays) = [] then Inl ValueError
      else
        (case normalize_axis_index axis (length (arr_shape (hd arrays))) of
           Inl e \<Rightarrow> Inl e
         | Inr k \<Rightarrow>
             (let s = arr_shape (hd arrays);
                  outer = prod_list (take k s);
                  inner = prod_list (drop (Suc k) s)
              in if \<not> list_all (\<lambda>a. length (arr_shape a) = length s
                                     \<and> take k (arr_shape a) = take k s
                                     \<and> drop (Suc k) (arr_shape a) = drop (Suc k) s) arrays
                 then Inl ValueError
                 else Inr (NdArray (take k s @ [sum_list (map (\<lambda>a. arr_shape a ! k) arrays)] @ drop (Suc k) s)
                        (concat (map (\<lambda>ou. concat (map (\<lambda>a.
                             take (arr_shape a ! k * inner)
                               (drop (ou * (arr_shape a ! k * inner)) (arr_data a))) arrays))
                           [0..<outer]))))))"

text \<open>\<^verbatim>\<open>point[..., i, :]\<close>: entry \<open>i\<close> of the last axis but one.\<close>

definition index_factor :: "ndarray \<Rightarrow> nat \<Rightarrow> error + ndarray" where
  "index_factor a i =
     (let s = arr_shape a; nd = length s in
      if nd < 2 then Inl IndexError
      else
        (let n = s ! (nd - 2); d = s ! (nd - 1); outer = prod_list (take (nd - 2) s) in
         if i < n then
           Inr (NdArray (take (nd - 2) s @ [d])
                  (concat (map (\<lambda>ou. take d (drop ((ou * n + i) * d) (arr_data a))) [0..<outer])))
         else Inl IndexError))"

text \<open>
  \<^verbatim>\<open>gs.reshape(a, newshape)\<close>: one entry of the new shape may be -1 and is then
  inferred from the size.
\<close>

definition gs_reshape :: "ndarray \<Rightarrow> int list \<Rightarrow> error + ndarray" where
  "gs_reshape a newshape =
     (let size = prod_list (arr_shape a);
          known = filter (\<lambda>d. d \<noteq> - 1) newshape;
          p = prod_list (map nat known)
      in if list_ex (\<lambda>d. d < - 1) newshape then Inl ValueError
         else if length known + 1 < length newshape then Inl ValueError
         else if length known = length newshape then
           (if p = size then Inr (NdArray (map nat newshape) (arr_data a)) else Inl ValueError)
         else if p \<noteq> 0 \<and> size mod p = 0 then
           Inr (NdArray (map (\<lambda>d. if d = - 1 then size div p else nat d) newshape) (arr_data a))
         else Inl ValueError)"

text \<open>\<^verbatim>\<open>gs.squeeze(a)\<close> drops every axis of length one; with an axis given, that axis.\<close>

definition gs_squeeze :: "ndarray \<Rightarrow> ndarray" where
  "gs_squeeze a = NdArray (filter (\<lambda>d. d \<noteq> 1) (arr_shape a)) (arr_data a)"

definition gs_squeeze_axis :: "ndarray \<Rightarrow> int \<Rightarrow> error + ndarray" where
  "gs_squeeze_axis a axis =
     (case normalize_axis_index axis (length (arr_shape a)) of
        Inl e \<Rightarrow> Inl e
      | Inr k \<Rightarrow>
          (if arr_shape a ! k = 1
           then Inr (NdArray (take k (arr_shape a) @ drop (Suc k) (arr_shape a)) (arr_data a))
           else Inl ValueError))"

text \<open>
  \<^verbatim>\<open>gs.broadcast_arrays(a, b)\<close>: shapes are aligned at the last axis; two lengths
  match when they are equal or one of them is one.
\<close>

fun broadcast_shape_rev :: "nat list \<Rightarrow> nat list \<Rightarrow> error + nat list" where
  "broadcast_shape_rev [] ys = Inr ys"
| "broadcast_shape_rev (x # xs) [] = Inr (x # xs)"
| "broadcast_shape_rev (x # xs) (y # ys) =
     (if x = y \<or> x = 1 \<or> y = 1 then
        (case broadcast_shape_rev xs ys of
           Inl e \<Rightarrow> Inl e
         | Inr r \<Rightarrow> Inr ((if x = 1 then y else x) # r))
      else Inl ValueError)"

fun broadcast_data :: "nat list \<Rightarrow> nat list \<Rightarrow> scalar list \<Rightarrow> scalar list" where
  "broadcast_data (d # ds) (t # ts) xs =
     (if d = t then
        concat (map (\<lambda>ou. broadcast_data ds ts
                      (take (prod_list ds) (drop (ou * prod_list ds) xs))) [0..<d])
      else concat (replicate t (broadcast_data ds ts xs)))"
| "broadcast_data ds ts xs = xs"

definition broadcast_to :: "ndarray \<Rightarrow> nat list \<Rightarrow> ndarray" where
  "broadcast_to a s =
     NdArray s (broadcast_data (replicate (length s - length (arr_shape a)) 1 @ arr_shape a) s
                  (arr_data a))"

definition gs_broadcast_arrays :: "ndarray \<Rightarrow> ndarray \<Rightarrow> error + (ndarray \<times> ndarray)" where
  "gs_broadcast_arrays a b =
     (case broadcast_shape_rev (rev (arr_shape a)) (rev (arr_shape b)) of
        Inl e \<Rightarrow> Inl e
      | Inr r \<Rightarrow> Inr (broadcast_to a (rev r), broadcast_to b (rev r)))"

section \<open>Spaces\<close>

text \<open>
  The attributes every space has (\<^verbatim>\<open>Manifold.__init__\<close> stores them), a factor
  space with its operations looked up by name (\<^verbatim>\<open>getattr\<close>), and the product.
  A factor operation takes its arguments by keyword and returns a value or raises.
\<close>

record space =
  dim :: int
  shape :: "int list"

record factor = space +
  methods :: "string \<Rightarrow> (kwargs \<Rightarrow> error + pyval) option"

text \<open>
  Modelled from the spec: the metric collaborator (\<^verbatim>\<open>ProductRiemannianMetric\<close>) is
  not part of the module; the product consumes it only through
  \<^verbatim>\<open>is_intrinsic(point)\<close>, kept here as the field \<open>is_intrinsic\<close>.
\<close>

record product_manifold = space +
  dims :: "int list"
  manifolds :: "factor list"
  n_jobs :: int
  default_point_type :: string
  is_intrinsic :: "ndarray \<Rightarrow> error + bool"

section \<open>ProductManifold: the dispatcher\<close>

text \<open>
  \<^verbatim>\<open>_get_method(manifold, method_name, metric_args)\<close>: look the method up and call
  it with the keyword arguments. The factor index is only recorded in the trace.
\<close>

definition get_method :: "nat \<Rightarrow> factor \<Rightarrow> string \<Rightarrow> kwargs \<Rightarrow> pyval traced" where
  "get_method i manifold method_name metric_args =
     (case methods manifold method_name of
        None \<Rightarrow> t_raise AttributeError
      | Some f \<Rightarrow> ([Call i method_name metric_args], f metric_args))"

text \<open>The split boundaries of \<^verbatim>\<open>_iterate_over_manifolds\<close>.\<close>

definition cum_index :: "int list \<Rightarrow> bool \<Rightarrow> int list" where
  "cum_index ds intrinsic =
     (if intrinsic then butlast (gs_cumsum ds) else gs_cumsum (map (\<lambda>k. k + 1) ds))"

definition is_float :: "pyval \<Rightarrow> bool" where
  "is_float v = (case v of PyFloat _ \<Rightarrow> True | _ \<Rightarrow> False)"

text \<open>
  The loop over \<^verbatim>\<open>args.items()\<close>: every value that is not a float is split, floats
  are collected unchanged. Returns \<^verbatim>\<open>(arguments, float_args)\<close>.
\<close>

fun split_args ::
  "int list \<Rightarrow> kwargs \<Rightarrow> error + ((string \<times> ndarray list) list \<times> kwargs)" where
  "split_args ci [] = Inr ([], [])"
| "split_args ci ((key, v) # rest) =
     (if \<not> is_float v then
        (case gs_split v ci of
           Inl e \<Rightarrow> Inl e
         | Inr pieces \<Rightarrow>
             (case split_args ci rest of
                Inl e \<Rightarrow> Inl e
              | Inr (arguments, float_args) \<Rightarrow> Inr ((key, pieces) # arguments, float_args)))
      else
        (case split_args ci rest of
           Inl e \<Rightarrow> Inl e
         | Inr (arguments, float_args) \<Rightarrow> Inr (arguments, (key, v) # float_args)))"

text \<open>\<^verbatim>\<open>{key: arguments[key][j] for key in arguments}\<close>\<close>

fun args_for :: "(string \<times> ndarray list) list \<Rightarrow> nat \<Rightarrow> error + kwargs" where
  "args_for [] j = Inr []"
| "args_for ((key, pieces) # rest) j =
     (if j < length pieces then
        (case args_for rest j of
           Inl e \<Rightarrow> Inl e
         | Inr kw \<Rightarrow> Inr ((key, PyArray (pieces ! j)) # kw))
      else Inl IndexError)"

text \<open>\<^verbatim>\<open>d[k] = v\<close> and \<^verbatim>\<open>{**a, **b}\<close> on insertion-ordered dictionaries.\<close>

fun dict_set :: "kwargs \<Rightarrow> string \<Rightarrow> pyval \<Rightarrow> kwargs" where
  "dict_set [] k v = [(k, v)]"
| "dict_set ((k', v') # d) k v =
     (if k' = k then (k, v) # d else (k', v') # dict_set d k v)"

definition dict_merge :: "kwargs \<Rightarrow> kwargs \<Rightarrow> kwargs" where
  "dict_merge a b = foldl (\<lambda>d (k, v). dict_set d k v) a b"

text \<open>
  \<^verbatim>\<open>_iterate_over_manifolds(func, args, intrinsic)\<close>. The worker pool runs the
  factor calls in factor order and the first exception ends the call
  (\<^verbatim>\<open>n_jobs = 1\<close>; the result for more workers is the same list).
\<close>

definition iterate_over_manifolds ::
  "product_manifold \<Rightarrow> string \<Rightarrow> kwargs \<Rightarrow> bool \<Rightarrow> pyval list traced" where
  "iterate_over_manifolds self func args intrinsic =
     (case split_args (cum_index (dims self) intrinsic) args of
        Inl e \<Rightarrow> t_raise e
      | Inr (arguments, float_args) \<Rightarrow>
          (case e_mapM (args_for arguments) [0..<length (manifolds self)] of
             Inl e \<Rightarrow> t_raise e
           | Inr args_list \<Rightarrow>
               t_mapM (\<lambda>i. get_method i (manifolds self ! i) func
                              (dict_merge (args_list ! i) float_args))
                 [0..<length (manifolds self)]))"

section \<open>ProductManifold: construction\<close>

text \<open>
  Modelled from the spec: \<^verbatim>\<open>geomstats.errors.check_parameter_accepted_values\<close> is
  not in the module's file. By the specification construction is rejected with
  ConfigError if the tag is not one of the supported values.
\<close>

definition check_parameter_accepted_values :: "string \<Rightarrow> string \<Rightarrow> string list \<Rightarrow> error + unit" where
  "check_parameter_accepted_values param param_name accepted_values =
     (if param \<in> set accepted_values then Inr () else Inl ConfigError)"

text \<open>\<^verbatim>\<open>m.shape[0]\<close>\<close>

definition first_axis :: "factor \<Rightarrow> error + int" where
  "first_axis m = (case shape m of [] \<Rightarrow> Inl IndexError | w # _ \<Rightarrow> Inr w)"

text \<open>
  \<^verbatim>\<open>ProductManifold.__init__(manifolds, metrics, default_point_type, n_jobs)\<close>.
  The metric object built from the factor metrics is the collaborator described above and
  is passed in by its \<open>is_intrinsic\<close>. \<^verbatim>\<open>Manifold.__init__\<close> stores \<open>dim\<close> and
  \<open>shape\<close>; the layout tag is fixed at construction.
\<close>

definition ProductManifold_init ::
  "factor list \<Rightarrow> (ndarray \<Rightarrow> error + bool) \<Rightarrow> string \<Rightarrow> int \<Rightarrow> error + product_manifold" where
  "ProductManifold_init manifolds_arg metric_is_intrinsic point_type jobs =
     (case check_parameter_accepted_values point_type ''default_point_type''
             [''vector'', ''matrix''] of
        Inl e \<Rightarrow> Inl e
      | Inr _ \<Rightarrow>
          (let ds = map dim manifolds_arg;
               d = sum_list ds
           in case (if point_type = ''vector'' then
                      (case e_mapM first_axis manifolds_arg of
                         Inl e \<Rightarrow> Inl e
                       | Inr ws \<Rightarrow> Inr [sum_list ws])
                    else
                      (case manifolds_arg of
                         [] \<Rightarrow> Inl IndexError
                       | m # _ \<Rightarrow> Inr (int (length manifolds_arg) # shape m))) of
                Inl e \<Rightarrow> Inl e
              | Inr sh \<Rightarrow>
                  Inr \<lparr>dim = d, shape = sh, dims = ds, manifolds = manifolds_arg,
                       n_jobs = jobs, default_point_type = point_type,
                       is_intrinsic = metric_is_intrinsic\<rparr>))"

section \<open>ProductManifold: operations\<close>

text \<open>
  A direct method call \<^verbatim>\<open>space.name(args)\<close>: Python looks the method up first,
  then evaluates the arguments, then calls. Positional arguments are bound to the
  parameter names of the factor contract.
\<close>

definition call_method :: "nat \<Rightarrow> factor \<Rightarrow> string \<Rightarrow> error + kwargs \<Rightarrow> pyval traced" where
  "call_method i space_i name args =
     (case methods space_i name of
        None \<Rightarrow> t_raise AttributeError
      | Some f \<Rightarrow>
          (case args of
             Inl e \<Rightarrow> t_raise e
           | Inr kw \<Rightarrow> ([Call i name kw], f kw)))"

text \<open>The list \<^verbatim>\<open>belongs\<close> of per-factor results, before it is stacked.\<close>

definition belongs_per_factor :: "product_manifold \<Rightarrow> ndarray \<Rightarrow> pyval \<Rightarrow> pyval list traced" where
  "belongs_per_factor self point atol =
     (if default_point_type self = ''vector'' then
        t_bind (t_lift (is_intrinsic self point))
          (\<lambda>intrinsic. iterate_over_manifolds self ''belongs''
                          [(''point'', PyArray point), (''atol'', atol)] intrinsic)
      else
        t_mapM (\<lambda>(i, space_i). call_method i space_i ''belongs''
                  (case index_factor point i of
                     Inl e \<Rightarrow> Inl e
                   | Inr p \<Rightarrow> Inr [(''point'', PyArray p), (''atol'', atol)]))
          (enumerate 0 (manifolds self)))"

text \<open>\<^verbatim>\<open>ProductManifold.belongs(point, atol)\<close>\<close>

definition ProductManifold_belongs :: "product_manifold \<Rightarrow> ndarray \<Rightarrow> pyval \<Rightarrow> ndarray traced" where
  "ProductManifold_belongs self point atol =
     t_bind (belongs_per_factor self point atol)
       (\<lambda>belongs. t_lift (case gs_stack belongs (- 1) of
                             Inl e \<Rightarrow> Inl e
                           | Inr stacked \<Rightarrow> gs_all stacked (- 1)))"

text \<open>The list \<^verbatim>\<open>is_tangent\<close> of per-factor results, before it is stacked.\<close>

definition is_tangent_per_factor ::
  "product_manifold \<Rightarrow> ndarray \<Rightarrow> ndarray \<Rightarrow> pyval \<Rightarrow> pyval list traced" where
  "is_tangent_per_factor self vector base_point atol =
     (if default_point_type self = ''vector'' then
        t_bind (t_lift (is_intrinsic self base_point))
          (\<lambda>intrinsic. iterate_over_manifolds self ''is_tangent''
                          [(''base_point'', PyArray base_point), (''vector'', PyArray vector),
                           (''atol'', atol)] intrinsic)
      else
        t_mapM (\<lambda>(i, space_i). call_method i space_i ''is_tangent''
                  (case index_factor vector i of
                     Inl e \<Rightarrow> Inl e
                   | Inr v \<Rightarrow>
                       (case index_factor base_point i of
                          Inl e \<Rightarrow> Inl e
                        | Inr p \<Rightarrow> Inr [(''vector'', PyArray v), (''base_point'', PyArray p),
                                         (''atol'', atol)])))
          (enumerate 0 (manifolds self)))"

text \<open>\<^verbatim>\<open>ProductManifold.is_tangent(vector, base_point, atol)\<close>\<close>

definition ProductManifold_is_tangent ::
  "product_manifold \<Rightarrow> ndarray \<Rightarrow> ndarray \<Rightarrow> pyval \<Rightarrow> ndarray traced" where
  "ProductManifold_is_tangent self vector base_point atol =
     t_bind (is_tangent_per_factor self vector base_point atol)
       (\<lambda>is_tangent. t_lift (case gs_stack is_tangent (- 1) of
                                Inl e \<Rightarrow> Inl e
                              | Inr stacked \<Rightarrow> gs_all stacked (- 1)))"

text \<open>
  \<^verbatim>\<open>ProductManifold.regularize(point)\<close>. With a tag that is neither of the two
  the local variable is never bound and returning it raises.
\<close>

definition ProductManifold_regularize :: "product_manifold \<Rightarrow> ndarray \<Rightarrow> ndarray traced" where
  "ProductManifold_regularize self point =
     (let point_type = default_point_type self in
      if point_type = ''vector'' then
        t_bind (t_lift (is_intrinsic self point))
          (\<lambda>intrinsic.
             t_bind (iterate_over_manifolds self ''regularize''
                       [(''point'', PyArray point)] intrinsic)
               (\<lambda>regularized_point. t_lift (gs_concatenate regularized_point (- 1))))
      else if point_type = ''matrix'' then
        t_bind (t_mapM (\<lambda>(i, manifold_i). call_method i manifold_i ''regularize''
                          (case index_factor point i of
                             Inl e \<Rightarrow> Inl e
                           | Inr p \<Rightarrow> Inr [(''point'', PyArray p)]))
                  (enumerate 0 (manifolds self)))
          (\<lambda>regularized_point. t_lift (gs_stack regularized_point 1))
      else t_raise UnboundLocalError)"

section \<open>NFoldManifold\<close>

text \<open>
  Modelled from the spec: \<^verbatim>\<open>geomstats.errors.check_integer\<close> is not in the module's
  file. By the specification construction is rejected with ConfigError if the count is
  not a positive integer.
\<close>

definition check_integer :: "int \<Rightarrow> string \<Rightarrow> error + unit" where
  "check_integer n n_name = (if 0 < n then Inr () else Inl ConfigError)"

record nfold_manifold = space +
  base_manifold :: factor
  base_shape :: "int list"
  n_copies :: int

text \<open>\<^verbatim>\<open>NFoldManifold.__init__(base_manifold, n_copies)\<close>\<close>

definition NFoldManifold_init :: "factor \<Rightarrow> int \<Rightarrow> error + nfold_manifold" where
  "NFoldManifold_init base n =
     (case check_integer n ''n_copies'' of
        Inl e \<Rightarrow> Inl e
      | Inr _ \<Rightarrow>
          Inr \<lparr>dim = n * dim base, shape = n # shape base,
               base_manifold = base, base_shape = shape base, n_copies = n\<rparr>)"

text \<open>
  \<^verbatim>\<open>NFoldManifold.is_tangent(vector, base_point, atol)\<close>. The base space is called
  with the two arrays only.
\<close>

definition NFoldManifold_is_tangent ::
  "nfold_manifold \<Rightarrow> ndarray \<Rightarrow> ndarray \<Rightarrow> pyval \<Rightarrow> ndarray traced" where
  "NFoldManifold_is_tangent self vector base_point atol =
     t_bind (t_lift (gs_broadcast_arrays vector base_point))
       (\<lambda>(vector_b, point_b).
          t_bind (t_lift (gs_reshape point_b (- 1 # base_shape self)))
            (\<lambda>point_r.
               t_bind (t_lift (gs_reshape vector_b (- 1 # base_shape self)))
                 (\<lambda>vector_r.
                    t_bind (call_method 0 (base_manifold self) ''is_tangent''
                              (Inr [(''vector'', PyArray vector_r),
                                    (''base_point'', PyArray point_r)]))
                      (\<lambda>each_tangent.
                         t_bind (t_lift (gs_reshape (asarray each_tangent) [- 1, n_copies self]))
                           (\<lambda>reshaped. t_lift (gs_all reshaped 1))))))"

text \<open>\<^verbatim>\<open>NFoldManifold.random_point(n_samples, bound)\<close>\<close>

definition NFoldManifold_random_point :: "nfold_manifold \<Rightarrow> int \<Rightarrow> pyval \<Rightarrow> ndarray traced" where
  "NFoldManifold_random_point self n_samples bound =
     t_bind (call_method 0 (base_manifold self) ''random_point''
               (Inr [(''n_samples'', PyInt (n_samples * n_copies self)), (''bound'', bound)]))
       (\<lambda>sample.
          t_bind (t_lift (gs_reshape (asarray sample)
                            ([n_samples, n_copies self] @ base_shape self)))
            (\<lambda>reshaped.
               if n_samples > 1 then t_return reshaped
               else t_lift (gs_squeeze_axis reshaped 0)))"

text \<open>\<^verbatim>\<open>NFoldManifold.projection(point)\<close>\<close>

definition NFoldManifold_projection :: "nfold_manifold \<Rightarrow> ndarray \<Rightarrow> ndarray traced" where
  "NFoldManifold_projection self point =
     (if methods (base_manifold self) ''projection'' \<noteq> None then
        t_bind (t_lift (gs_reshape point (- 1 # base_shape self)))
          (\<lambda>point_r.
             t_bind (call_method 0 (base_manifold self) ''projection''
                       (Inr [(''point'', PyArray point_r)]))
               (\<lambda>projected.
                  t_bind (t_lift (gs_reshape (asarray projected)
                                    ([- 1, n_copies self] @ base_shape self)))
                    (\<lambda>reshaped. t_return (gs_squeeze reshaped))))
      else t_raise NotImplementedError)"

section \<open>Example spaces\<close>

text \<open>
  Small factor spaces on which the theorems below are instantiated:
  \<open>echo_point\<close> returns the point it is given, \<open>nonzero_point\<close> and
  \<open>nonzero_vector\<close> answer for each point of a batch whether every coordinate is
  non-zero, \<open>failing\<close> raises, and \<open>zeros_sample\<close> returns the requested number
  of points of the given shape.
\<close>

definition echo_point :: "kwargs \<Rightarrow> error + pyval" where
  "echo_point kw = (case map_of kw ''point'' of None \<Rightarrow> Inl TypeError | Some v \<Rightarrow> Inr v)"

definition nonzero_rows :: "ndarray \<Rightarrow> ndarray" where
  "nonzero_rows a =
     (let w = last (arr_shape a); s = butlast (arr_shape a)
      in NdArray s (map (\<lambda>ou. Bo (list_all truthy (take w (drop (ou * w) (arr_data a)))))
                      [0..<prod_list s]))"

definition nonzero_point :: "kwargs \<Rightarrow> error + pyval" where
  "nonzero_point kw =
     (case map_of kw ''point'' of
        Some (PyArray a) \<Rightarrow> Inr (PyArray (nonzero_rows a))
      | _ \<Rightarrow> Inl TypeError)"

definition nonzero_vector :: "kwargs \<Rightarrow> error + pyval" where
  "nonzero_vector kw =
     (case map_of kw ''vector'' of
        Some (PyArray a) \<Rightarrow> Inr (PyArray (nonzero_rows a))
      | _ \<Rightarrow> Inl TypeError)"

definition failing :: "kwargs \<Rightarrow> error + pyval" where
  "failing kw = Inl (FactorError ''boom'')"

definition zeros_sample :: "nat list \<Rightarrow> kwargs \<Rightarrow> error + pyval" where
  "zeros_sample sh kw =
     (case map_of kw ''n_samples'' of
        Some (PyInt k) \<Rightarrow>
          Inr (PyArray (NdArray (nat k # sh) (replicate (nat k * prod_list sh) (Fl 0))))
      | _ \<Rightarrow> Inl TypeError)"

definition example_factor ::
  "int \<Rightarrow> int list \<Rightarrow> (string \<times> (kwargs \<Rightarrow> error + pyval)) list \<Rightarrow> factor" where
  "example_factor d sh ms = \<lparr>dim = d, shape = sh, methods = map_of ms\<rparr>"

definition plain_methods :: "(string \<times> (kwargs \<Rightarrow> error + pyval)) list" where
  "plain_methods =
     [(''regularize'', echo_point), (''belongs'', nonzero_point),
      (''is_tangent'', nonzero_vector), (''projection'', echo_point),
      (''random_point'', zeros_sample [3])]"

definition always_intrinsic :: "ndarray \<Rightarrow> error + bool" where
  "always_intrinsic p = Inr True"

definition never_intrinsic :: "ndarray \<Rightarrow> error + bool" where
  "never_intrinsic p = Inr False"

text \<open>Two factors of dimension 2 and 3 in vector layout.\<close>

definition product_2_3 :: product_manifold where
  "product_2_3 =
     \<lparr>dim = 5, shape = [5], dims = [2, 3],
      manifolds = [example_factor 2 [2] plain_methods, example_factor 3 [3] plain_methods],
      n_jobs = 1, default_point_type = ''vector'', is_intrinsic = always_intrinsic\<rparr>"

definition point_5 :: ndarray where
  "point_5 = NdArray [5] [In 1, In 2, In 3, In 4, In 5]"

text \<open>The fourth power of a space of shape \<open>(3,)\<close>.\<close>

definition power_4_of_3 :: nfold_manifold where
  "power_4_of_3 =
     \<lparr>dim = 12, shape = [4, 3], base_manifold = example_factor 3 [3] plain_methods,
      base_shape = [3], n_copies = 4\<rparr>"

text \<open>Two factors of shape \<open>(3,)\<close> in matrix layout.\<close>

definition matrix_3_3 :: product_manifold where
  "matrix_3_3 =
     \<lparr>dim = 6, shape = [2, 3], dims = [3, 3],
      manifolds = [example_factor 3 [3] plain_methods, example_factor 3 [3] plain_methods],
      n_jobs = 1, default_point_type = ''matrix'', is_intrinsic = always_intrinsic\<rparr>"

text \<open>What construction returns for factors of shapes \<open>(2,)\<close> and \<open>(3,)\<close> in matrix layout.\<close>

definition mixed_matrix :: product_manifold where
  "mixed_matrix =
     \<lparr>dim = 5, shape = [2, 2], dims = [2, 3],
      manifolds = [example_factor 2 [2] plain_methods, example_factor 3 [3] plain_methods],
      n_jobs = 1, default_point_type = ''matrix'', is_intrinsic = always_intrinsic\<rparr>"

text \<open>What construction returns for one factor of shape \<open>(2, 3)\<close> in vector layout.\<close>

definition product_of_2_by_3 :: product_manifold where
  "product_of_2_by_3 =
     \<lparr>dim = 6, shape = [2], dims = [6],
      manifolds = [example_factor 6 [2, 3] plain_methods],
      n_jobs = 1, default_point_type = ''vector'', is_intrinsic = always_intrinsic\<rparr>"

text \<open>The first power of a space of shape \<open>(3,)\<close>, and one point of it.\<close>

definition power_1_of_3 :: nfold_manifold where
  "power_1_of_3 =
     \<lparr>dim = 3, shape = [1, 3], base_manifold = example_factor 3 [3] plain_methods,
      base_shape = [3], n_copies = 1\<rparr>"

definition point_1_3 :: ndarray where
  "point_1_3 = NdArray [1, 3] [In 1, In 2, In 3]"

text \<open>A batch of four vectors, the last but one with a zero coordinate, and a point.\<close>

definition vector_4_3 :: ndarray where
  "vector_4_3 =
     NdArray [4, 3] [In 1, In 2, In 3, In 4, In 5, In 6, In 7, In 8, In 0, In 1, In 1, In 1]"

definition point_3 :: ndarray where
  "point_3 = NdArray [3] [In 1, In 0, In 0]"

text \<open>
  The arguments the specification assigns to factor \<open>i\<close>: piece \<open>i\<close> of every
  argument that is split, followed by every float argument unchanged.
\<close>

definition the_pieces :: "pyval \<Rightarrow> int list \<Rightarrow> ndarray list" where
  "the_pieces v ci = (case gs_split v ci of Inl e \<Rightarrow> [] | Inr ps \<Rightarrow> ps)"

definition spec_factor_arguments :: "int list \<Rightarrow> kwargs \<Rightarrow> nat \<Rightarrow> kwargs" where
  "spec_factor_arguments ci args i =
     map (\<lambda>(key, v). (key, PyArray (the_pieces v ci ! i)))
       (filter (\<lambda>(key, v). \<not> is_float v) args)
     @ filter (\<lambda>(key, v). is_float v) args"

text \<open>Two factors of dimension 2 and 3 in vector layout; the operations of the second raise.\<close>

definition failing_methods :: "(string \<times> (kwargs \<Rightarrow> error + pyval)) list" where
  "failing_methods =
     [(''regularize'', failing), (''belongs'', failing), (''is_tangent'', failing)]"

definition failing_product :: product_manifold where
  "failing_product =
     \<lparr>dim = 5, shape = [5], dims = [2, 3],
      manifolds = [example_factor 2 [2] plain_methods, example_factor 3 [3] failing_methods],
      n_jobs = 1, default_point_type = ''vector'', is_intrinsic = always_intrinsic\<rparr>"

text \<open>A point of width 7, the extrinsic width of the product of dimensions 2 and 3.\<close>

definition point_7 :: ndarray where
  "point_7 = NdArray [7] [In 1, In 2, In 3, In 4, In 5, In 6, In 7]"

text \<open>
  \<^verbatim>\<open>ProductManifold.projection(point)\<close>, the sibling of \<open>regularize\<close>: the same
  steps, with the per-factor results of the matrix layout stacked on the last axis but one.
\<close>

definition ProductManifold_projection :: "product_manifold \<Rightarrow> ndarray \<Rightarrow> ndarray traced" where
  "ProductManifold_projection self point =
     (let point_type = default_point_type self in
      if point_type = ''vector'' then
        t_bind (t_lift (is_intrinsic self point))
          (\<lambda>intrinsic.
             t_bind (iterate_over_manifolds self ''projection''
                       [(''point'', PyArray point)] intrinsic)
               (\<lambda>projected_point. t_lift (gs_concatenate projected_point (- 1))))
      else if point_type = ''matrix'' then
        t_bind (t_mapM (\<lambda>(i, manifold_i). call_method i manifold_i ''projection''
                          (case index_factor point i of
                             Inl e \<Rightarrow> Inl e
                           | Inr p \<Rightarrow> Inr [(''point'', PyArray p)]))
                  (enumerate 0 (manifolds self)))
          (\<lambda>projected_point. t_lift (gs_stack projected_point (- 2)))
      else t_raise UnboundLocalError)"

text \<open>
  The arguments with which, by the specification, factor \<open>i\<close> answers \<open>belongs\<close> and
  \<open>is_tangent\<close>: its slice of each array and the tolerance.
\<close>

definition belongs_arguments :: "product_manifold \<Rightarrow> ndarray \<Rightarrow> pyval \<Rightarrow> nat \<Rightarrow> error + kwargs" where
  "belongs_arguments self point atol i =
     (if default_point_type self = ''vector'' then
        (case is_intrinsic self point of
           Inl e \<Rightarrow> Inl e
         | Inr intrinsic \<Rightarrow>
             Inr (spec_factor_arguments (cum_index (dims self) intrinsic)
                    [(''point'', PyArray point), (''atol'', atol)] i))
      else
        (case index_factor point i of
           Inl e \<Rightarrow> Inl e
         | Inr p \<Rightarrow> Inr [(''point'', PyArray p), (''atol'', atol)]))"

definition is_tangent_arguments ::
  "product_manifold \<Rightarrow> ndarray \<Rightarrow> ndarray \<Rightarrow> pyval \<Rightarrow> nat \<Rightarrow> error + kwargs" where
  "is_tangent_arguments self vector base_point atol i =
     (if default_point_type self = ''vector'' then
        (case is_intrinsic self base_point of
           Inl e \<Rightarrow> Inl e
         | Inr intrinsic \<Rightarrow>
             Inr (spec_factor_arguments (cum_index (dims self) intrinsic)
                    [(''base_point'', PyArray base_point), (''vector'', PyArray vector),
                     (''atol'', atol)] i))
      else
        (case index_factor vector i of
           Inl e \<Rightarrow> Inl e
         | Inr v \<Rightarrow>
             (case index_factor base_point i of
                Inl e \<Rightarrow> Inl e
              | Inr p \<Rightarrow> Inr [(''vector'', PyArray v), (''base_point'', PyArray p),
                               (''atol'', atol)])))"

text \<open>The conjunction of per-factor answers, element by element.\<close>

definition all_factors :: "nat list \<Rightarrow> pyval list \<Rightarrow> ndarray" where
  "all_factors s vals =
     NdArray s (map (\<lambda>t. Bo (\<forall>v\<in>set vals. truthy (arr_data (asarray v) ! t))) [0..<prod_list s])"

text \<open>A point of the product of dimensions 2 and 3 whose second slice has a zero coordinate.\<close>

definition point_5_zero :: ndarray where
  "point_5_zero = NdArray [5] [In 1, In 2, In 0, In 4, In 5]"

text \<open>A matrix-layout vector whose first row has a zero coordinate, and a base point.\<close>

definition vector_2_3 :: ndarray where
  "vector_2_3 = NdArray [2, 3] [In 1, In 0, In 3, In 4, In 5, In 6]"

definition base_point_2_3 :: ndarray where
  "base_point_2_3 = NdArray [2, 3] [In 1, In 1, In 1, In 1, In 1, In 1]"

section \<open>Split boundaries\<close>

lemma cumsum_from_running_sum:
  "cumsum_from acc xs = map (\<lambda>i. acc + sum_list (take (Suc i) xs)) [0..<length xs]"
proof (induction xs arbitrary: acc)
  case Nil
  show ?case by simp
next
  case (Cons x xs)
  show ?case
    unfolding length_Cons map_upt_Suc
    by (simp add: Cons.IH add.assoc)
qed

lemma gs_cumsum_running_sum:
  "gs_cumsum xs = map (\<lambda>i. sum_list (take (Suc i) xs)) [0..<length xs]"
  by (simp add: gs_cumsum_def cumsum_from_running_sum)

lemma butlast_map_upt: "butlast (map f [0..<n]) = map f [0..<n - 1]"
  by (simp add: butlast_conv_take take_map)

lemma init_dims:
  "ProductManifold_init ms isi tag jobs = Inr self \<Longrightarrow>
     dims self = map dim ms \<and> manifolds self = ms"
  by (auto simp: ProductManifold_init_def Let_def split: sum.splits if_splits)

lemma product_2_3_init:
  "ProductManifold_init
     [example_factor 2 [2] plain_methods, example_factor 3 [3] plain_methods]
     always_intrinsic ''vector'' 1 = Inr product_2_3"
  by (simp add: ProductManifold_init_def check_parameter_accepted_values_def first_axis_def
      example_factor_def product_2_3_def)

text \<open>
  C1. For every constructed product, the split boundaries of the dispatcher are, for an
  intrinsic point, the running sums of the factor dimensions without the last one
  (boundary \<open>i\<close> is \<open>dim\<^sub>0 + \<dots> + dim\<^sub>i\<close> for \<open>i < n - 1\<close>), and for an extrinsic
  point the running sums of \<open>dim\<^sub>i + 1\<close> over all \<open>n\<close> factors.
\<close>

theorem split_boundaries:
  assumes "ProductManifold_init ms isi tag jobs = Inr self"
  shows "cum_index (dims self) True
           = map (\<lambda>i. sum_list (map dim (take (Suc i) ms))) [0..<length ms - 1]
       \<and> cum_index (dims self) False
           = map (\<lambda>i. sum_list (map (\<lambda>m. dim m + 1) (take (Suc i) ms))) [0..<length ms]"
proof -
  have d: "dims self = map dim ms"
    using assms by (simp add: init_dims)
  have intr: "cum_index (dims self) True
           = map (\<lambda>i. sum_list (map dim (take (Suc i) ms))) [0..<length ms - 1]"
    by (simp add: cum_index_def d gs_cumsum_running_sum butlast_map_upt take_map)
  have extr: "cum_index (dims self) False
           = map (\<lambda>i. sum_list (map (\<lambda>m. dim m + 1) (take (Suc i) ms))) [0..<length ms]"
    by (simp add: cum_index_def d gs_cumsum_running_sum take_map comp_def)
  from intr extr show ?thesis by simp
qed

text \<open>
  The scenario of C1: two factors of dimension 2 and 3. The intrinsic boundaries are
  \<open>[2]\<close>, and a point of width 5 reaches factor 0 as its first two coordinates and
  factor 1 as its last three.
\<close>

theorem split_boundaries_witness:
  "ProductManifold_init
     [example_factor 2 [2] plain_methods, example_factor 3 [3] plain_methods]
     always_intrinsic ''vector'' 1 = Inr product_2_3
   \<and> cum_index (dims product_2_3) True = [2]
   \<and> cum_index (dims product_2_3) False = [3, 7]
   \<and> iterate_over_manifolds product_2_3 ''regularize'' [(''point'', PyArray point_5)] True
       = ([Call 0 ''regularize'' [(''point'', PyArray (NdArray [2] [In 1, In 2]))],
           Call 1 ''regularize'' [(''point'', PyArray (NdArray [3] [In 3, In 4, In 5]))]],
          Inr [PyArray (NdArray [2] [In 1, In 2]), PyArray (NdArray [3] [In 3, In 4, In 5])])"
proof -
  have b: "cum_index (dims product_2_3) True = [2]
         \<and> cum_index (dims product_2_3) False = [3, 7]"
    using split_boundaries [OF product_2_3_init]
    by (simp add: example_factor_def upt_rec)
  have ci: "cum_index [2, 3] True = [2]"
    using b by (simp add: product_2_3_def)
  have sp: "gs_split (PyArray point_5) [2]
              = Inr [NdArray [2] [In 1, In 2], NdArray [3] [In 3, In 4, In 5]]"
    by (simp add: gs_split_def point_5_def slice_last_def slice_bound_def Let_def)
  have it: "iterate_over_manifolds product_2_3 ''regularize'' [(''point'', PyArray point_5)] True
       = ([Call 0 ''regularize'' [(''point'', PyArray (NdArray [2] [In 1, In 2]))],
           Call 1 ''regularize'' [(''point'', PyArray (NdArray [3] [In 3, In 4, In 5]))]],
          Inr [PyArray (NdArray [2] [In 1, In 2]), PyArray (NdArray [3] [In 3, In 4, In 5])])"
    unfolding iterate_over_manifolds_def
    by (simp add: product_2_3_def ci sp is_float_def upt_rec dict_merge_def get_method_def
        example_factor_def plain_methods_def echo_point_def t_bind_def t_return_def)
  from product_2_3_init b it show ?thesis by simp
qed

section \<open>Construction\<close>

lemma e_mapM_first_axis:
  "e_mapM first_axis ms = Inr ws \<Longrightarrow>
     ws = map (\<lambda>m. hd (shape m)) ms \<and> (\<forall>m\<in>set ms. shape m \<noteq> [])"
proof (induction ms arbitrary: ws)
  case Nil
  then show ?case by simp
next
  case (Cons m ms)
  then show ?case
    by (auto simp: first_axis_def split: sum.splits list.splits)
qed

lemma init_vector:
  assumes "ProductManifold_init ms isi ''vector'' jobs = Inr self"
  shows "dim self = sum_list (map dim ms)
       \<and> shape self = [sum_list (map (\<lambda>m. hd (shape m)) ms)]
       \<and> (\<forall>m\<in>set ms. shape m \<noteq> [])"
  using assms
  by (auto simp: ProductManifold_init_def Let_def check_parameter_accepted_values_def
      dest!: e_mapM_first_axis split: sum.splits if_splits)

lemma init_not_vector:
  assumes "ProductManifold_init ms isi tag jobs = Inr self" and "tag \<noteq> ''vector''"
  shows "tag = ''matrix'' \<and> ms \<noteq> [] \<and> dim self = sum_list (map dim ms)
       \<and> shape self = int (length ms) # shape (hd ms)"
  using assms
  by (auto simp: ProductManifold_init_def Let_def check_parameter_accepted_values_def
      split: sum.splits if_splits list.splits)

lemma init_tag:
  assumes "ProductManifold_init ms isi tag jobs = Inr self"
  shows "tag = ''vector'' \<or> tag = ''matrix''"
  using assms
  by (auto simp: ProductManifold_init_def Let_def check_parameter_accepted_values_def
      split: sum.splits if_splits list.splits)

lemma single_axis_hd_last: "length (xs :: int list) = 1 \<Longrightarrow> hd xs = last xs"
  by (cases xs) auto

text \<open>
  C9, amended. A product that was constructed has as dimension the sum of the factor
  dimensions. In vector layout its shape is one axis whose length is the sum of the
  factors' first axis lengths \<^verbatim>\<open>m.shape[0]\<close>, which for factors with a single axis
  is the length of their trailing axis. In matrix layout its shape is the number of factors followed by
  the first factor's shape, which is the common shape when the factors share one. A power
  that was constructed has dimension \<open>n * dim base\<close> and shape \<open>n\<close> followed by the
  base shape. No operation of the module changes \<open>dim\<close> or \<open>shape\<close> afterwards.
\<close>

theorem derived_dim_and_shape:
  "(ProductManifold_init ms isi tag jobs = Inr self \<longrightarrow>
      dim self = sum_list (map dim ms)
    \<and> (tag = ''vector'' \<longrightarrow>
         shape self = [sum_list (map (\<lambda>m. hd (shape m)) ms)]
       \<and> ((\<forall>m\<in>set ms. length (shape m) = 1) \<longrightarrow>
            shape self = [sum_list (map (\<lambda>m. last (shape m)) ms)]))
    \<and> (tag = ''matrix'' \<longrightarrow>
         shape self = int (length ms) # shape (hd ms)
       \<and> ((\<forall>m\<in>set ms. shape m = s) \<longrightarrow> shape self = int (length ms) # s)))
 \<and> (NFoldManifold_init base n = Inr nf \<longrightarrow>
      dim nf = n * dim base \<and> shape nf = n # shape base)"
proof -
  have nfold: "NFoldManifold_init base n = Inr nf \<longrightarrow>
      dim nf = n * dim base \<and> shape nf = n # shape base"
    by (auto simp: NFoldManifold_init_def split: sum.splits)
  have prod: "dim self = sum_list (map dim ms)
    \<and> (tag = ''vector'' \<longrightarrow>
         shape self = [sum_list (map (\<lambda>m. hd (shape m)) ms)]
       \<and> ((\<forall>m\<in>set ms. length (shape m) = 1) \<longrightarrow>
            shape self = [sum_list (map (\<lambda>m. last (shape m)) ms)]))
    \<and> (tag = ''matrix'' \<longrightarrow>
         shape self = int (length ms) # shape (hd ms)
       \<and> ((\<forall>m\<in>set ms. shape m = s) \<longrightarrow> shape self = int (length ms) # s))"
    if init: "ProductManifold_init ms isi tag jobs = Inr self"
  proof (cases "tag = ''vector''")
    case True
    have v: "dim self = sum_list (map dim ms)
       \<and> shape self = [sum_list (map (\<lambda>m. hd (shape m)) ms)]"
      using init_vector [of ms isi jobs self] init True by simp
    have "(\<forall>m\<in>set ms. length (shape m) = 1) \<longrightarrow>
            sum_list (map (\<lambda>m. hd (shape m)) ms) = sum_list (map (\<lambda>m. last (shape m)) ms)"
      by (auto intro!: arg_cong [where f = sum_list] simp: single_axis_hd_last)
    with v True show ?thesis by simp
  next
    case False
    have m: "tag = ''matrix'' \<and> ms \<noteq> [] \<and> dim self = sum_list (map dim ms)
       \<and> shape self = int (length ms) # shape (hd ms)"
      using init_not_vector [OF init False] .
    then have "shape (hd ms) = s" if "\<forall>m\<in>set ms. shape m = s"
      using that by simp
    with m False show ?thesis by simp
  qed
  from nfold prod show ?thesis by blast
qed

lemma matrix_3_3_init:
  "ProductManifold_init
     [example_factor 3 [3] plain_methods, example_factor 3 [3] plain_methods]
     always_intrinsic ''matrix'' 1 = Inr matrix_3_3"
  by (simp add: ProductManifold_init_def check_parameter_accepted_values_def
      example_factor_def matrix_3_3_def)

lemma power_4_of_3_init:
  "NFoldManifold_init (example_factor 3 [3] plain_methods) 4 = Inr power_4_of_3"
  by (simp add: NFoldManifold_init_def check_integer_def example_factor_def power_4_of_3_def)

text \<open>
  C9, amended, on the product of dimensions 2 and 3 in vector layout, the product of two spaces
  of shape \<open>(3,)\<close> in matrix layout, and the fourth power of a space of shape \<open>(3,)\<close>.
\<close>

theorem derived_dim_and_shape_witness:
  "ProductManifold_init
     [example_factor 2 [2] plain_methods, example_factor 3 [3] plain_methods]
     always_intrinsic ''vector'' 1 = Inr product_2_3
   \<and> dim product_2_3 = 2 + 3 \<and> shape product_2_3 = [2 + 3]
   \<and> ProductManifold_init
     [example_factor 3 [3] plain_methods, example_factor 3 [3] plain_methods]
     always_intrinsic ''matrix'' 1 = Inr matrix_3_3
   \<and> dim matrix_3_3 = 3 + 3 \<and> shape matrix_3_3 = [2, 3]
   \<and> NFoldManifold_init (example_factor 3 [3] plain_methods) 4 = Inr power_4_of_3
   \<and> dim power_4_of_3 = 4 * 3 \<and> shape power_4_of_3 = [4, 3]"
proof -
  have v: "dim product_2_3 = 2 + 3 \<and> shape product_2_3 = [2 + 3]"
    using derived_dim_and_shape
      [of "[example_factor 2 [2] plain_methods, example_factor 3 [3] plain_methods]"
          always_intrinsic "''vector''" 1 product_2_3 "[]" "example_factor 3 [3] plain_methods"
          4 power_4_of_3]
      product_2_3_init
    by (simp add: example_factor_def)
  have m: "dim matrix_3_3 = 3 + 3 \<and> shape matrix_3_3 = [2, 3]"
    using derived_dim_and_shape
      [of "[example_factor 3 [3] plain_methods, example_factor 3 [3] plain_methods]"
          always_intrinsic "''matrix''" 1 matrix_3_3 "[3]" "example_factor 3 [3] plain_methods"
          4 power_4_of_3]
      matrix_3_3_init
    by (simp add: example_factor_def)
  have p: "dim power_4_of_3 = 4 * 3 \<and> shape power_4_of_3 = [4, 3]"
    using derived_dim_and_shape
      [of "[example_factor 3 [3] plain_methods, example_factor 3 [3] plain_methods]"
          always_intrinsic "''matrix''" 1 matrix_3_3 "[3]" "example_factor 3 [3] plain_methods"
          4 power_4_of_3]
      power_4_of_3_init
    by (simp add: example_factor_def)
  from v m p product_2_3_init matrix_3_3_init power_4_of_3_init show ?thesis by simp
qed

text \<open>
  C9 as stated fails: for one factor of shape \<open>(2, 3)\<close> in vector layout the derived
  shape is \<open>(2,)\<close>, the length of the factor's first axis, while the width of its
  trailing axis is 3.
\<close>

theorem vector_shape_sums_first_axis:
  "last (shape (example_factor 6 [2, 3] plain_methods)) = 3
 \<and> ProductManifold_init [example_factor 6 [2, 3] plain_methods] always_intrinsic ''vector'' 1
     = Inr product_of_2_by_3
 \<and> shape product_of_2_by_3 = [2]"
  by (simp add: ProductManifold_init_def check_parameter_accepted_values_def first_axis_def
      example_factor_def product_of_2_by_3_def)

text \<open>
  C4 as stated fails: a matrix-layout product of two factors of shapes \<open>(2,)\<close> and
  \<open>(3,)\<close> is constructed, with shape \<open>(2, 2)\<close>.
\<close>

theorem differing_shapes_accepted:
  "shape (example_factor 2 [2] plain_methods) = [2]
   \<and> shape (example_factor 3 [3] plain_methods) = [3]
   \<and> ProductManifold_init
       [example_factor 2 [2] plain_methods, example_factor 3 [3] plain_methods]
       always_intrinsic ''matrix'' 1 = Inr mixed_matrix"
  by (simp add: ProductManifold_init_def check_parameter_accepted_values_def
      example_factor_def mixed_matrix_def)

text \<open>
  C4, amended. Construction is rejected with ConfigError when the layout tag is neither
  \<open>vector\<close> nor \<open>matrix\<close>. In matrix layout the factor shapes are not compared: every
  non-empty list of factors is accepted and the shape is the number of factors followed
  by the first factor's shape.
\<close>

theorem construction_rejection:
  "(tag \<noteq> ''vector'' \<and> tag \<noteq> ''matrix'' \<longrightarrow>
      ProductManifold_init ms isi tag jobs = Inl ConfigError)
 \<and> (ms \<noteq> [] \<longrightarrow>
      ProductManifold_init ms isi ''matrix'' jobs
        = Inr \<lparr>dim = sum_list (map dim ms), shape = int (length ms) # shape (hd ms),
               dims = map dim ms, manifolds = ms, n_jobs = jobs,
               default_point_type = ''matrix'', is_intrinsic = isi\<rparr>)"
  by (auto simp: ProductManifold_init_def check_parameter_accepted_values_def Let_def
      split: list.splits)

text \<open>C4, amended, on the tag \<open>tensor\<close> and on the two factors of differing shape.\<close>

theorem construction_rejection_witness:
  "ProductManifold_init [example_factor 2 [2] plain_methods] always_intrinsic ''tensor'' 1
     = Inl ConfigError
 \<and> ProductManifold_init
       [example_factor 2 [2] plain_methods, example_factor 3 [3] plain_methods]
       always_intrinsic ''matrix'' 1
     = Inr \<lparr>dim = 5, shape = [2, 2], dims = [2, 3],
            manifolds = [example_factor 2 [2] plain_methods, example_factor 3 [3] plain_methods],
            n_jobs = 1, default_point_type = ''matrix'', is_intrinsic = always_intrinsic\<rparr>"
proof -
  have a: "ProductManifold_init [example_factor 2 [2] plain_methods] always_intrinsic ''tensor'' 1
     = Inl ConfigError"
    using construction_rejection
      [of "''tensor''" "[example_factor 2 [2] plain_methods]" always_intrinsic 1]
    by simp
  have b: "ProductManifold_init
       [example_factor 2 [2] plain_methods, example_factor 3 [3] plain_methods]
       always_intrinsic ''matrix'' 1
     = Inr \<lparr>dim = 5, shape = [2, 2], dims = [2, 3],
            manifolds = [example_factor 2 [2] plain_methods, example_factor 3 [3] plain_methods],
            n_jobs = 1, default_point_type = ''matrix'', is_intrinsic = always_intrinsic\<rparr>"
    using construction_rejection
      [of "''tensor''"
          "[example_factor 2 [2] plain_methods, example_factor 3 [3] plain_methods]"
          always_intrinsic 1]
    by (simp add: example_factor_def)
  from a b show ?thesis by simp
qed

section \<open>Reshaping\<close>

lemma filter_known_axes: "filter (\<lambda>d. d \<noteq> - 1) (map int ds) = map int ds"
  by (induction ds) auto

lemma no_negative_axes: "\<not> list_ex (\<lambda>d. d < - 1) (map int ds)"
  by (induction ds) auto

lemma prod_list_pos: "\<forall>d\<in>set ds. 0 < d \<Longrightarrow> 0 < prod_list (ds :: nat list)"
  by (induction ds) auto

lemma reshape_exact:
  assumes "prod_list (arr_shape a) = prod_list ds"
  shows "gs_reshape a (map int ds) = Inr (NdArray ds (arr_data a))"
  using assms
  by (simp add: gs_reshape_def Let_def filter_known_axes no_negative_axes comp_def)

lemma reshape_infer:
  assumes "\<forall>d\<in>set ds. 0 < d" and "prod_list (arr_shape a) = k * prod_list ds"
  shows "gs_reshape a (- 1 # map int ds) = Inr (NdArray (k # ds) (arr_data a))"
proof -
  have p: "0 < prod_list ds"
    using assms(1) by (rule prod_list_pos)
  show ?thesis
    using assms(2) p
    by (simp add: gs_reshape_def Let_def filter_known_axes no_negative_axes comp_def)
qed

section \<open>NFoldManifold\<close>

text \<open>
  C10. \<^verbatim>\<open>NFoldManifold.is_tangent\<close> returns the same result, and makes the same call on
  the base space, for any two tolerances: the only call it makes passes the vector and the
  base point and no tolerance, so the base space uses its default.
\<close>

theorem nfold_is_tangent_ignores_atol:
  "NFoldManifold_is_tangent self vector base_point atol
     = NFoldManifold_is_tangent self vector base_point atol'
 \<and> (\<forall>c\<in>set (fst (NFoldManifold_is_tangent self vector base_point atol)).
       \<exists>v p. c = Call 0 ''is_tangent'' [(''vector'', PyArray v), (''base_point'', PyArray p)])"
  by (auto simp: NFoldManifold_is_tangent_def t_bind_def t_lift_def call_method_def t_raise_def
      split: sum.splits option.splits prod.splits)

text \<open>C10 on the fourth power of a space of shape \<open>(3,)\<close>, with tolerances 0.5 and 0.\<close>

theorem nfold_is_tangent_ignores_atol_witness:
  "NFoldManifold_is_tangent power_4_of_3 vector_4_3 point_3 (PyFloat 0.5)
     = NFoldManifold_is_tangent power_4_of_3 vector_4_3 point_3 (PyFloat 0)
 \<and> fst (NFoldManifold_is_tangent power_4_of_3 vector_4_3 point_3 (PyFloat 0.5))
     = [Call 0 ''is_tangent''
         [(''vector'', PyArray vector_4_3),
          (''base_point'', PyArray (NdArray [4, 3]
             [In 1, In 0, In 0, In 1, In 0, In 0, In 1, In 0, In 0, In 1, In 0, In 0]))]]"
proof -
  have a: "NFoldManifold_is_tangent power_4_of_3 vector_4_3 point_3 (PyFloat 0.5)
     = NFoldManifold_is_tangent power_4_of_3 vector_4_3 point_3 (PyFloat 0)"
    using nfold_is_tangent_ignores_atol [where self = power_4_of_3 and vector = vector_4_3
        and base_point = point_3 and atol = "PyFloat 0.5" and atol' = "PyFloat 0"]
    by simp
  have b: "gs_broadcast_arrays vector_4_3 point_3
             = Inr (vector_4_3, NdArray [4, 3]
                 [In 1, In 0, In 0, In 1, In 0, In 0, In 1, In 0, In 0, In 1, In 0, In 0])"
    by code_simp
  have r: "gs_reshape vector_4_3 [- 1, 3] = Inr vector_4_3"
    using reshape_infer [of "[3]" vector_4_3 4] by (simp add: vector_4_3_def)
  have r2: "gs_reshape (NdArray [4, 3]
                 [In 1, In 0, In 0, In 1, In 0, In 0, In 1, In 0, In 0, In 1, In 0, In 0]) [- 1, 3]
        = Inr (NdArray [4, 3]
                 [In 1, In 0, In 0, In 1, In 0, In 0, In 1, In 0, In 0, In 1, In 0, In 0])"
    using reshape_infer [of "[3]" "NdArray [4, 3]
                 [In 1, In 0, In 0, In 1, In 0, In 0, In 1, In 0, In 0, In 1, In 0, In 0]" 4] by simp
  have c: "fst (NFoldManifold_is_tangent power_4_of_3 vector_4_3 point_3 (PyFloat 0.5))
     = [Call 0 ''is_tangent''
         [(''vector'', PyArray vector_4_3),
          (''base_point'', PyArray (NdArray [4, 3]
             [In 1, In 0, In 0, In 1, In 0, In 0, In 1, In 0, In 0, In 1, In 0, In 0]))]]"
    by (simp add: NFoldManifold_is_tangent_def power_4_of_3_def b r r2 t_bind_def t_lift_def
        call_method_def example_factor_def plain_methods_def split: sum.splits prod.splits)
  from a c show ?thesis by simp
qed

lemma nfold_projection_missing:
  assumes "methods (base_manifold self) ''projection'' = None"
  shows "NFoldManifold_projection self point = ([], Inl NotImplementedError)"
  using assms by (simp add: NFoldManifold_projection_def t_raise_def)

lemma nfold_projection_steps:
  assumes "methods (base_manifold self) ''projection'' = Some proj"
  shows "NFoldManifold_projection self point =
     (case gs_reshape point (- 1 # base_shape self) of
        Inl e \<Rightarrow> ([], Inl e)
      | Inr point_r \<Rightarrow>
          ([Call 0 ''projection'' [(''point'', PyArray point_r)]],
           case proj [(''point'', PyArray point_r)] of
             Inl e \<Rightarrow> Inl e
           | Inr projected \<Rightarrow>
               (case gs_reshape (asarray projected) ([- 1, n_copies self] @ base_shape self) of
                  Inl e \<Rightarrow> Inl e
                | Inr reshaped \<Rightarrow> Inr (gs_squeeze reshaped))))"
  using assms
  by (simp add: NFoldManifold_projection_def t_bind_def t_lift_def t_return_def call_method_def
      split: sum.splits)

lemma nfold_projection_shape:
  assumes proj: "methods (base_manifold self) ''projection'' = Some proj"
    and bs: "base_shape self = map int bs" "\<forall>d\<in>set bs. 0 < d"
    and n: "n_copies self = int n" "0 < n"
    and p: "arr_shape point = batch @ n # bs"
    and q: "proj [(''point'', PyArray (NdArray ((prod_list batch * n) # bs) (arr_data point)))]
              = Inr (PyArray q)"
           "arr_shape q = (prod_list batch * n) # bs"
  shows "NFoldManifold_projection self point =
     ([Call 0 ''projection''
         [(''point'', PyArray (NdArray ((prod_list batch * n) # bs) (arr_data point)))]],
      Inr (NdArray (filter (\<lambda>d. d \<noteq> 1) (prod_list batch # n # bs)) (arr_data q)))"
proof -
  have r1: "gs_reshape point (- 1 # base_shape self)
              = Inr (NdArray ((prod_list batch * n) # bs) (arr_data point))"
    unfolding bs(1) using bs(2) by (rule reshape_infer) (simp add: p)
  have nbs: "\<forall>d\<in>set (n # bs). 0 < d"
    using bs(2) n(2) by simp
  have "gs_reshape q (- 1 # map int (n # bs)) = Inr (NdArray (prod_list batch # n # bs) (arr_data q))"
    using nbs by (rule reshape_infer) (simp add: q(2))
  then have r2: "gs_reshape (asarray (PyArray q)) (- 1 # n_copies self # base_shape self)
              = Inr (NdArray (prod_list batch # n # bs) (arr_data q))"
    by (simp add: asarray_def n(1) bs(1))
  show ?thesis
    unfolding nfold_projection_steps [OF proj] r1
    by (simp add: q(1) r2 gs_squeeze_def)
qed

lemma power_1_of_3_init:
  "NFoldManifold_init (example_factor 3 [3] plain_methods) 1 = Inr power_1_of_3"
  by (simp add: NFoldManifold_init_def check_integer_def example_factor_def power_1_of_3_def)

text \<open>
  C8 at a power of one copy. The base space of shape \<open>(3,)\<close> has a projection that
  returns its argument. The point of shape \<open>(1, 3)\<close> is reshaped to \<open>(1, 3)\<close>,
  projected once, reshaped to \<open>(1, 1, 3)\<close> and then squeezed: the result has shape
  \<open>(3,)\<close>, without the factor axis, and not the shape \<open>(1, 3)\<close> of the composite
  layout.
\<close>

theorem projection_single_copy_drops_factor_axis:
  "NFoldManifold_init (example_factor 3 [3] plain_methods) 1 = Inr power_1_of_3
 \<and> shape power_1_of_3 = [1, 3]
 \<and> arr_shape point_1_3 = [1, 3]
 \<and> NFoldManifold_projection power_1_of_3 point_1_3
     = ([Call 0 ''projection'' [(''point'', PyArray point_1_3)]],
        Inr (NdArray [3] [In 1, In 2, In 3]))"
proof -
  have proj: "methods (base_manifold power_1_of_3) ''projection'' = Some echo_point"
    by (simp add: power_1_of_3_def example_factor_def plain_methods_def)
  have bs: "base_shape power_1_of_3 = map int [3]" and n: "n_copies power_1_of_3 = int 1"
    by (simp_all add: power_1_of_3_def)
  have pos: "\<forall>d\<in>set [3::nat]. 0 < d" and one: "0 < (1::nat)"
    by simp_all
  have p: "arr_shape point_1_3 = [] @ 1 # [3]"
    by (simp add: point_1_3_def)
  have q: "echo_point [(''point'', PyArray (NdArray ((prod_list [] * 1) # [3]) (arr_data point_1_3)))]
             = Inr (PyArray point_1_3)"
    by (simp add: echo_point_def point_1_3_def)
  have qs: "arr_shape point_1_3 = (prod_list [] * 1) # [3]"
    by (simp add: point_1_3_def)
  have run: "NFoldManifold_projection power_1_of_3 point_1_3
     = ([Call 0 ''projection'' [(''point'', PyArray point_1_3)]],
        Inr (NdArray [3] [In 1, In 2, In 3]))"
    using nfold_projection_shape [OF proj bs pos n one p q qs]
    by (simp add: point_1_3_def)
  from power_1_of_3_init p run show ?thesis
    by (simp add: power_1_of_3_def)
qed

lemma nfold_random_point_steps:
  assumes "methods (base_manifold self) ''random_point'' = Some rp"
  shows "NFoldManifold_random_point self n_samples bound =
     ([Call 0 ''random_point''
         [(''n_samples'', PyInt (n_samples * n_copies self)), (''bound'', bound)]],
      case rp [(''n_samples'', PyInt (n_samples * n_copies self)), (''bound'', bound)] of
        Inl e \<Rightarrow> Inl e
      | Inr sample \<Rightarrow>
          (case gs_reshape (asarray sample) ([n_samples, n_copies self] @ base_shape self) of
             Inl e \<Rightarrow> Inl e
           | Inr reshaped \<Rightarrow>
               if n_samples > 1 then Inr reshaped else gs_squeeze_axis reshaped 0))"
  using assms
  by (simp add: NFoldManifold_random_point_def t_bind_def t_lift_def t_return_def call_method_def
      split: sum.splits)

lemma nfold_random_point_shape:
  assumes rp: "methods (base_manifold self) ''random_point'' = Some rp"
    and bs: "base_shape self = map int bs"
    and n: "n_copies self = int n"
    and k: "n_samples = int k" "1 \<le> k"
    and s: "rp [(''n_samples'', PyInt (int (k * n))), (''bound'', bound)] = Inr (PyArray sample)"
           "prod_list (arr_shape sample) = k * n * prod_list bs"
  shows "NFoldManifold_random_point self n_samples bound =
     ([Call 0 ''random_point'' [(''n_samples'', PyInt (int (k * n))), (''bound'', bound)]],
      Inr (NdArray (if k = 1 then n # bs else k # n # bs) (arr_data sample)))"
proof -
  have "gs_reshape sample (map int (k # n # bs)) = Inr (NdArray (k # n # bs) (arr_data sample))"
    by (rule reshape_exact) (simp add: s(2))
  then have r: "gs_reshape (asarray (PyArray sample)) (int k # int n # map int bs)
              = Inr (NdArray (k # n # bs) (arr_data sample))"
    by (simp add: asarray_def)
  have sq: "gs_squeeze_axis (NdArray (1 # n # bs) (arr_data sample)) 0
              = Inr (NdArray (n # bs) (arr_data sample))"
    by (simp add: gs_squeeze_axis_def normalize_axis_index_def)
  show ?thesis
    using s(1) r sq k(2)
    by (auto simp: nfold_random_point_steps [OF rp] bs n k(1))
qed

text \<open>
  The scenario of C7, where the code does what the claim says: base shape \<open>(3,)\<close> and
  \<open>n = 4\<close>; one sample has shape \<open>(4, 3)\<close>, five samples have shape \<open>(5, 4, 3)\<close>.
\<close>

lemma nfold_random_point_scenario:
  "NFoldManifold_random_point power_4_of_3 1 (PyFloat 1)
     = ([Call 0 ''random_point'' [(''n_samples'', PyInt 4), (''bound'', PyFloat 1)]],
        Inr (NdArray [4, 3] (replicate 12 (Fl 0))))
 \<and> NFoldManifold_random_point power_4_of_3 5 (PyFloat 1)
     = ([Call 0 ''random_point'' [(''n_samples'', PyInt 20), (''bound'', PyFloat 1)]],
        Inr (NdArray [5, 4, 3] (replicate 60 (Fl 0))))"
proof -
  have h1: "methods (base_manifold power_4_of_3) ''random_point'' = Some (zeros_sample [3])
      \<and> base_shape power_4_of_3 = map int [3] \<and> n_copies power_4_of_3 = int 4
      \<and> (1::int) = int 1 \<and> (1::nat) \<le> 1
      \<and> zeros_sample [3] [(''n_samples'', PyInt (int (1 * 4))), (''bound'', PyFloat 1)]
           = Inr (PyArray (NdArray [4, 3] (replicate 12 (Fl 0))))
      \<and> prod_list (arr_shape (NdArray [4, 3] (replicate 12 (Fl 0)))) = 1 * 4 * prod_list [3]"
    by (simp add: power_4_of_3_def example_factor_def plain_methods_def zeros_sample_def)
  have "NFoldManifold_random_point power_4_of_3 1 (PyFloat 1) =
        ([Call 0 ''random_point'' [(''n_samples'', PyInt (int (1 * 4))), (''bound'', PyFloat 1)]],
         Inr (NdArray (if (1::nat) = 1 then 4 # [3] else 1 # 4 # [3])
                (arr_data (NdArray [4, 3] (replicate 12 (Fl 0))))))"
    using nfold_random_point_shape [where self = power_4_of_3 and rp = "zeros_sample [3]"
        and n_samples = 1 and bound = "PyFloat 1" and bs = "[3]" and n = 4 and k = 1
        and sample = "NdArray [4, 3] (replicate 12 (Fl 0))"] h1
    by blast
  then have a: "NFoldManifold_random_point power_4_of_3 1 (PyFloat 1)
     = ([Call 0 ''random_point'' [(''n_samples'', PyInt 4), (''bound'', PyFloat 1)]],
        Inr (NdArray [4, 3] (replicate 12 (Fl 0))))"
    by simp
  have h5: "methods (base_manifold power_4_of_3) ''random_point'' = Some (zeros_sample [3])
      \<and> base_shape power_4_of_3 = map int [3] \<and> n_copies power_4_of_3 = int 4
      \<and> (5::int) = int 5 \<and> (1::nat) \<le> 5
      \<and> zeros_sample [3] [(''n_samples'', PyInt (int (5 * 4))), (''bound'', PyFloat 1)]
           = Inr (PyArray (NdArray [20, 3] (replicate 60 (Fl 0))))
      \<and> prod_list (arr_shape (NdArray [20, 3] (replicate 60 (Fl 0)))) = 5 * 4 * prod_list [3]"
    by (simp add: power_4_of_3_def example_factor_def plain_methods_def zeros_sample_def)
  have "NFoldManifold_random_point power_4_of_3 5 (PyFloat 1) =
        ([Call 0 ''random_point'' [(''n_samples'', PyInt (int (5 * 4))), (''bound'', PyFloat 1)]],
         Inr (NdArray (if (5::nat) = 1 then 4 # [3] else 5 # 4 # [3])
                (arr_data (NdArray [20, 3] (replicate 60 (Fl 0))))))"
    using nfold_random_point_shape [where self = power_4_of_3 and rp = "zeros_sample [3]"
        and n_samples = 5 and bound = "PyFloat 1" and bs = "[3]" and n = 4 and k = 5
        and sample = "NdArray [20, 3] (replicate 60 (Fl 0))"] h5
    by blast
  then have b: "NFoldManifold_random_point power_4_of_3 5 (PyFloat 1)
     = ([Call 0 ''random_point'' [(''n_samples'', PyInt 20), (''bound'', PyFloat 1)]],
        Inr (NdArray [5, 4, 3] (replicate 60 (Fl 0))))"
    by simp
  from a b show ?thesis by simp
qed

text \<open>
  C7 at \<open>n_samples = 0\<close>, for base shape \<open>(3,)\<close> and \<open>n = 4\<close>. The base space
  is asked for \<open>0 * 4\<close> draws in one call and returns an empty array, which is reshaped
  to \<open>(0, 4, 3)\<close>. Since \<open>n_samples\<close> is not 1 the leading axis is to be kept and
  that array returned; but the test of the code is \<open>n_samples > 1\<close>, so the leading
  axis of length 0 is squeezed and the call raises.
\<close>

theorem nfold_random_point_zero_samples:
  "NFoldManifold_random_point power_4_of_3 0 (PyFloat 1)
     = ([Call 0 ''random_point'' [(''n_samples'', PyInt 0), (''bound'', PyFloat 1)]],
        Inl ValueError)"
  by (simp add: NFoldManifold_random_point_def power_4_of_3_def example_factor_def
      plain_methods_def call_method_def zeros_sample_def t_bind_def t_lift_def asarray_def
      gs_reshape_def gs_squeeze_axis_def normalize_axis_index_def)

section \<open>The dispatcher\<close>

lemma t_mapM_cong:
  "(\<And>x. x \<in> set xs \<Longrightarrow> f x = g x) \<Longrightarrow> t_mapM f xs = t_mapM g xs"
  by (induction xs) auto

lemma t_mapM_Inr:
  assumes "t_mapM f xs = (cs, Inr ys)"
  shows "length ys = length xs \<and> (\<forall>i<length xs. snd (f (xs ! i)) = Inr (ys ! i))"
  using assms
proof (induction xs arbitrary: cs ys)
  case Nil
  then show ?case by (simp add: t_return_def)
next
  case (Cons x xs)
  obtain c1 r1 where fx: "f x = (c1, r1)" by (cases "f x")
  obtain c2 r2 where rest: "t_mapM f xs = (c2, r2)" by (cases "t_mapM f xs")
  from Cons.prems fx rest obtain y ys' where
    r1: "r1 = Inr y" and r2: "r2 = Inr ys'" and ys: "ys = y # ys'"
    by (auto simp: t_bind_def t_return_def split: sum.splits)
  from Cons.IH [of c2 ys'] rest r2
  have ih: "length ys' = length xs \<and> (\<forall>i<length xs. snd (f (xs ! i)) = Inr (ys' ! i))"
    by simp
  show ?case
  proof (intro conjI allI impI)
    show "length ys = length (x # xs)" using ih ys by simp
  next
    fix i assume "i < length (x # xs)"
    then show "snd (f ((x # xs) ! i)) = Inr (ys ! i)"
      using ih ys fx r1 by (cases i) auto
  qed
qed

lemma t_mapM_Inl:
  assumes "t_mapM f xs = (cs, Inl e)"
  shows "\<exists>k<length xs. (\<forall>i<k. \<exists>y. snd (f (xs ! i)) = Inr y) \<and> snd (f (xs ! k)) = Inl e"
  using assms
proof (induction xs arbitrary: cs)
  case Nil
  then show ?case by (simp add: t_return_def)
next
  case (Cons x xs)
  obtain c1 r1 where fx: "f x = (c1, r1)" by (cases "f x")
  show ?case
  proof (cases r1)
    case (Inl e')
    with Cons.prems fx have "e' = e" by (simp add: t_bind_def)
    with Inl fx have "snd (f ((x # xs) ! 0)) = Inl e" by simp
    then show ?thesis by (intro exI [of _ 0]) simp
  next
    case (Inr y)
    obtain c2 r2 where rest: "t_mapM f xs = (c2, r2)" by (cases "t_mapM f xs")
    from Cons.prems fx Inr rest have "r2 = Inl e"
      by (auto simp: t_bind_def t_return_def split: sum.splits)
    with Cons.IH [of c2] rest obtain k where
      k: "k < length xs" "\<forall>i<k. \<exists>y. snd (f (xs ! i)) = Inr y" "snd (f (xs ! k)) = Inl e"
      by auto
    have "\<forall>i<Suc k. \<exists>y. snd (f ((x # xs) ! i)) = Inr y"
    proof (intro allI impI)
      fix i assume "i < Suc k"
      then show "\<exists>y. snd (f ((x # xs) ! i)) = Inr y"
        using k(2) fx Inr by (cases i) auto
    qed
    with k(1) k(3) show ?thesis by (intro exI [of _ "Suc k"]) simp
  qed
qed

lemma t_mapM_first_failure:
  assumes "k < length xs" and "\<forall>i<k. \<exists>y. snd (f (xs ! i)) = Inr y" and "snd (f (xs ! k)) = Inl e"
  shows "t_mapM f xs = (concat (map (\<lambda>x. fst (f x)) (take (Suc k) xs)), Inl e)"
  using assms
proof (induction xs arbitrary: k)
  case Nil
  then show ?case by simp
next
  case (Cons x xs)
  show ?case
  proof (cases k)
    case 0
    with Cons.prems(3) show ?thesis
      by (cases "f x") (simp add: t_bind_def)
  next
    case (Suc k')
    from Cons.prems(2) Suc obtain y where y: "snd (f x) = Inr y" by fastforce
    have "t_mapM f xs = (concat (map (\<lambda>x. fst (f x)) (take (Suc k') xs)), Inl e)"
    proof (rule Cons.IH)
      show "k' < length xs" using Cons.prems(1) Suc by simp
      show "\<forall>i<k'. \<exists>y. snd (f (xs ! i)) = Inr y"
        using Cons.prems(2) Suc by fastforce
      show "snd (f (xs ! k')) = Inl e" using Cons.prems(3) Suc by simp
    qed
    with y Suc show ?thesis
      by (cases "f x") (simp add: t_bind_def)
  qed
qed

lemma t_mapM_trace:
  "fst (t_mapM f xs) = concat (map (\<lambda>x. fst (f x)) (takeWhile (\<lambda>x. \<exists>y. snd (f x) = Inr y) xs))
     @ (case dropWhile (\<lambda>x. \<exists>y. snd (f x) = Inr y) xs of [] \<Rightarrow> [] | x # _ \<Rightarrow> fst (f x))"
proof (induction xs)
  case Nil
  show ?case by (simp add: t_return_def)
next
  case (Cons x xs)
  obtain c1 r1 where fx: "f x = (c1, r1)" by (cases "f x")
  obtain c2 r2 where rest: "t_mapM f xs = (c2, r2)" by (cases "t_mapM f xs")
  show ?case
  proof (cases r1)
    case (Inl e)
    with fx show ?thesis by (simp add: t_bind_def)
  next
    case (Inr y)
    with fx rest Cons.IH show ?thesis
      by (cases r2) (simp_all add: t_bind_def t_return_def)
  qed
qed

lemma gs_split_length:
  "gs_split v ci = Inr ps \<Longrightarrow> length ps = length ci + 1"
  by (auto simp: gs_split_def Let_def split: pyval.splits if_splits)

lemma cumsum_from_length: "length (cumsum_from acc xs) = length xs"
  by (induction xs arbitrary: acc) auto

lemma cum_index_length:
  "length (cum_index ds intrinsic) = (if intrinsic then length ds - 1 else length ds)"
  by (simp add: cum_index_def gs_cumsum_def cumsum_from_length)

lemma split_args_Inr:
  assumes "split_args ci args = Inr (arguments, float_args)"
  shows "arguments = map (\<lambda>(key, v). (key, the_pieces v ci))
                       (filter (\<lambda>(key, v). \<not> is_float v) args)
       \<and> float_args = filter (\<lambda>(key, v). is_float v) args
       \<and> (\<forall>(key, v)\<in>set args. \<not> is_float v \<longrightarrow> gs_split v ci = Inr (the_pieces v ci))"
  using assms
proof (induction args arbitrary: arguments float_args)
  case Nil
  then show ?case by simp
next
  case (Cons kv args)
  obtain key v where kv: "kv = (key, v)" by (cases kv)
  from Cons.prems kv obtain A F where rest: "split_args ci args = Inr (A, F)"
    by (auto split: sum.splits if_splits)
  note ih = Cons.IH [OF rest]
  show ?case
  proof (cases "is_float v")
    case True
    with Cons.prems kv rest have "arguments = A" "float_args = (key, v) # F" by auto
    with ih True kv show ?thesis by simp
  next
    case False
    with Cons.prems kv rest obtain ps where
      ps: "gs_split v ci = Inr ps" and "arguments = (key, ps) # A" "float_args = F"
      by (auto split: sum.splits)
    with ih False kv show ?thesis by (simp add: the_pieces_def)
  qed
qed

lemma split_args_Inl:
  assumes "split_args ci args = Inl e"
  shows "\<exists>(key, v)\<in>set args. \<not> is_float v \<and> gs_split v ci = Inl e"
  using assms
proof (induction args)
  case Nil
  then show ?case by simp
next
  case (Cons kv args)
  obtain key v where kv: "kv = (key, v)" by (cases kv)
  show ?case
  proof (cases "\<not> is_float v \<and> gs_split v ci = Inl e")
    case True
    with kv show ?thesis by auto
  next
    case False
    with Cons.prems kv have "split_args ci args = Inl e"
      by (auto split: sum.splits if_splits prod.splits)
    with Cons.IH show ?thesis by auto
  qed
qed

lemma split_args_succeeds:
  assumes "\<forall>(key, v)\<in>set args. \<not> is_float v \<longrightarrow> (\<exists>ps. gs_split v ci = Inr ps)"
  shows "\<exists>arguments float_args. split_args ci args = Inr (arguments, float_args)"
proof (cases "split_args ci args")
  case (Inl e)
  from split_args_Inl [OF Inl] assms show ?thesis by fastforce
next
  case (Inr p)
  then show ?thesis by (cases p) simp
qed

lemma args_for_Inr:
  "args_for arguments j = Inr kw \<Longrightarrow>
     kw = map (\<lambda>(key, pieces). (key, PyArray (pieces ! j))) arguments"
proof (induction arguments arbitrary: kw)
  case Nil
  then show ?case by simp
next
  case (Cons kp arguments)
  then show ?case
    by (cases kp) (auto split: if_splits sum.splits)
qed

lemma args_for_succeeds:
  "\<forall>(key, pieces)\<in>set arguments. j < length pieces \<Longrightarrow>
     args_for arguments j = Inr (map (\<lambda>(key, pieces). (key, PyArray (pieces ! j))) arguments)"
proof (induction arguments)
  case Nil
  then show ?case by simp
next
  case (Cons kp arguments)
  then show ?case by (cases kp) auto
qed

lemma e_mapM_Inr:
  assumes "e_mapM f xs = Inr ys"
  shows "length ys = length xs \<and> (\<forall>i<length xs. f (xs ! i) = Inr (ys ! i))"
  using assms
proof (induction xs arbitrary: ys)
  case Nil
  then show ?case by simp
next
  case (Cons x xs)
  from Cons.prems obtain y ys' where
    y: "f x = Inr y" and rest: "e_mapM f xs = Inr ys'" and ys: "ys = y # ys'"
    by (auto split: sum.splits)
  note ih = Cons.IH [OF rest]
  show ?case
  proof (intro conjI allI impI)
    show "length ys = length (x # xs)" using ih ys by simp
  next
    fix i assume "i < length (x # xs)"
    then show "f ((x # xs) ! i) = Inr (ys ! i)"
      using ih ys y by (cases i) auto
  qed
qed

lemma e_mapM_succeeds:
  "\<forall>x\<in>set xs. f x = Inr (g x) \<Longrightarrow> e_mapM f xs = Inr (map g xs)"
  by (induction xs) auto

lemma dict_set_fresh: "k \<notin> fst ` set d \<Longrightarrow> dict_set d k v = d @ [(k, v)]"
  by (induction d) auto

lemma dict_merge_disjoint:
  "distinct (map fst b) \<Longrightarrow> fst ` set a \<inter> fst ` set b = {} \<Longrightarrow> dict_merge a b = a @ b"
proof (induction b arbitrary: a)
  case Nil
  then show ?case by (simp add: dict_merge_def)
next
  case (Cons kv b)
  obtain k v where kv: "kv = (k, v)" by (cases kv)
  have fresh: "k \<notin> fst ` set a" using Cons.prems(2) kv by auto
  have "dict_merge a (kv # b) = dict_merge (dict_set a k v) b"
    by (simp add: dict_merge_def kv)
  also have "\<dots> = dict_merge (a @ [(k, v)]) b"
    using fresh by (simp add: dict_set_fresh)
  also have "\<dots> = (a @ [(k, v)]) @ b"
  proof (rule Cons.IH)
    show "distinct (map fst b)" using Cons.prems(1) by simp
    show "fst ` set (a @ [(k, v)]) \<inter> fst ` set b = {}"
      using Cons.prems kv by auto
  qed
  finally show ?case by (simp add: kv)
qed

lemma merged_arguments:
  assumes "distinct (map fst args)"
  shows "dict_merge
           (map (\<lambda>(key, pieces). (key, PyArray (pieces ! i)))
              (map (\<lambda>(key, v). (key, the_pieces v ci)) (filter (\<lambda>(key, v). \<not> is_float v) args)))
           (filter (\<lambda>(key, v). is_float v) args)
         = spec_factor_arguments ci args i"
proof -
  have d: "distinct (map fst (filter (\<lambda>(key, v). is_float v) args))"
    using assms by (simp add: distinct_map_filter)
  have disj: "fst ` set (map (\<lambda>(key, pieces). (key, PyArray (pieces ! i)))
                 (map (\<lambda>(key, v). (key, the_pieces v ci))
                    (filter (\<lambda>(key, v). \<not> is_float v) args)))
              \<inter> fst ` set (filter (\<lambda>(key, v). is_float v) args) = {}"
  proof (rule ccontr)
    assume "\<not> ?thesis"
    then obtain k v w where "(k, v) \<in> set args" "\<not> is_float v" "(k, w) \<in> set args" "is_float w"
      by (auto simp: image_iff)
    moreover from this have "v \<noteq> w" by auto
    ultimately show False
      using assms by (meson eq_key_imp_eq_value)
  qed
  show ?thesis
    unfolding spec_factor_arguments_def
    using dict_merge_disjoint [OF d disj]
    by (simp add: comp_def case_prod_unfold)
qed

lemma dispatch_Inr:
  assumes run: "iterate_over_manifolds self func args intrinsic = (cs, Inr vals)"
    and keys: "distinct (map fst args)"
  shows "length vals = length (manifolds self)
       \<and> (\<forall>i<length (manifolds self).
            snd (get_method i (manifolds self ! i) func
                   (spec_factor_arguments (cum_index (dims self) intrinsic) args i))
              = Inr (vals ! i))"
proof -
  let ?ci = "cum_index (dims self) intrinsic"
  let ?n = "length (manifolds self)"
  from run obtain A F where sp: "split_args ?ci args = Inr (A, F)"
    by (auto simp: iterate_over_manifolds_def t_raise_def split: sum.splits)
  from run sp obtain L where L: "e_mapM (args_for A) [0..<?n] = Inr L"
    by (auto simp: iterate_over_manifolds_def t_raise_def split: sum.splits)
  from run sp L have tm:
    "t_mapM (\<lambda>i. get_method i (manifolds self ! i) func (dict_merge (L ! i) F)) [0..<?n]
       = (cs, Inr vals)"
    by (simp add: iterate_over_manifolds_def)
  note A = split_args_Inr [OF sp]
  have Li: "dict_merge (L ! i) F = spec_factor_arguments ?ci args i" if "i < ?n" for i
  proof -
    from e_mapM_Inr [OF L] that have "args_for A i = Inr (L ! i)" by simp
    from args_for_Inr [OF this] A show ?thesis
      using merged_arguments [OF keys] by simp
  qed
  from t_mapM_Inr [OF tm] Li show ?thesis by simp
qed

lemma dispatch_eq:
  assumes len: "length (dims self) = length (manifolds self)"
    and keys: "distinct (map fst args)"
    and ok: "\<forall>(key, v)\<in>set args. \<not> is_float v \<longrightarrow>
               (\<exists>ps. gs_split v (cum_index (dims self) intrinsic) = Inr ps)"
  shows "iterate_over_manifolds self func args intrinsic
       = t_mapM (\<lambda>i. get_method i (manifolds self ! i) func
                   (spec_factor_arguments (cum_index (dims self) intrinsic) args i))
           [0..<length (manifolds self)]"
proof -
  let ?ci = "cum_index (dims self) intrinsic"
  let ?n = "length (manifolds self)"
  from split_args_succeeds [OF ok] obtain A F where sp: "split_args ?ci args = Inr (A, F)"
    by blast
  note A = split_args_Inr [OF sp]
  have enough: "\<forall>(key, pieces)\<in>set A. j < length pieces" if "j < ?n" for j
  proof -
    have "j < length (the_pieces v ?ci)" if "(key, v) \<in> set args" "\<not> is_float v" for key v
    proof -
      from A that have "gs_split v ?ci = Inr (the_pieces v ?ci)" by auto
      from gs_split_length [OF this] \<open>j < ?n\<close> len show ?thesis
        by (simp add: cum_index_length split: if_splits)
    qed
    with A show ?thesis by auto
  qed
  have L: "e_mapM (args_for A) [0..<?n]
             = Inr (map (\<lambda>j. map (\<lambda>(key, pieces). (key, PyArray (pieces ! j))) A) [0..<?n])"
    by (rule e_mapM_succeeds) (auto simp: args_for_succeeds enough)
  have "iterate_over_manifolds self func args intrinsic
      = t_mapM (\<lambda>i. get_method i (manifolds self ! i) func
                  (dict_merge (map (\<lambda>j. map (\<lambda>(key, pieces). (key, PyArray (pieces ! j))) A)
                                 [0..<?n] ! i) F))
          [0..<?n]"
    by (simp add: iterate_over_manifolds_def sp L)
  also have "\<dots> = t_mapM (\<lambda>i. get_method i (manifolds self ! i) func
                   (spec_factor_arguments ?ci args i)) [0..<?n]"
  proof (rule t_mapM_cong)
    fix i assume "i \<in> set [0..<?n]"
    then have i: "i < ?n" by simp
    then have "map (\<lambda>j. map (\<lambda>(key, pieces). (key, PyArray (pieces ! j))) A) [0..<?n] ! i
                 = map (\<lambda>(key, pieces). (key, PyArray (pieces ! i))) A"
      by simp
    then show "get_method i (manifolds self ! i) func
                 (dict_merge (map (\<lambda>j. map (\<lambda>(key, pieces). (key, PyArray (pieces ! j))) A)
                                [0..<?n] ! i) F)
             = get_method i (manifolds self ! i) func (spec_factor_arguments ?ci args i)"
      using A merged_arguments [OF keys, of i ?ci] by simp
  qed
  finally show ?thesis .
qed

lemma dispatch_split_error:
  assumes "split_args (cum_index (dims self) intrinsic) args = Inl e"
  shows "iterate_over_manifolds self func args intrinsic = ([], Inl e)"
  using assms by (simp add: iterate_over_manifolds_def t_raise_def)

lemma split_failure_raises:
  assumes "(key, v) \<in> set args" "\<not> is_float v" "gs_split v (cum_index (dims self) intrinsic) = Inl e"
  shows "\<exists>e'. iterate_over_manifolds self func args intrinsic = ([], Inl e')"
proof (cases "split_args (cum_index (dims self) intrinsic) args")
  case (Inl e')
  then show ?thesis by (auto simp: dispatch_split_error)
next
  case (Inr p)
  obtain A F where "p = (A, F)" by (cases p)
  with Inr split_args_Inr [of "cum_index (dims self) intrinsic" args A F] assms
  show ?thesis by auto
qed

lemma spec_factor_arguments_lookup:
  assumes keys: "distinct (map fst args)" and mem: "(key, v) \<in> set args"
  shows "map_of (spec_factor_arguments ci args i) key
           = Some (if is_float v then v else PyArray (the_pieces v ci ! i))"
proof -
  let ?A = "map (\<lambda>(key, v). (key, PyArray (the_pieces v ci ! i)))
              (filter (\<lambda>(key, v). \<not> is_float v) args)"
  let ?F = "filter (\<lambda>(key, v). is_float v) args"
  have fstA: "map fst ?A = map fst (filter (\<lambda>(key, v). \<not> is_float v) args)"
    by (simp add: comp_def case_prod_unfold)
  have dA: "distinct (map fst ?A)"
    unfolding fstA using keys by (simp add: distinct_map_filter)
  have dF: "distinct (map fst ?F)"
    using keys by (simp add: distinct_map_filter)
  show ?thesis
  proof (cases "is_float v")
    case True
    have "key \<notin> fst ` set ?A"
    proof
      assume "key \<in> fst ` set ?A"
      then obtain w where "(key, w) \<in> set args" "\<not> is_float w" by (auto simp: image_iff)
      with mem True keys show False by (metis eq_key_imp_eq_value)
    qed
    then have "map_of ?A key = None" by (simp add: map_of_eq_None_iff)
    moreover have "map_of ?F key = Some v"
      using dF mem True by (intro map_of_is_SomeI) auto
    ultimately show ?thesis
      using True by (simp add: spec_factor_arguments_def map_add_def)
  next
    case False
    have "(key, PyArray (the_pieces v ci ! i)) \<in> set ?A"
      using mem False by (auto simp: image_iff intro!: bexI [of _ "(key, v)"])
    with dA have "map_of ?A key = Some (PyArray (the_pieces v ci ! i))"
      by (rule map_of_is_SomeI)
    then show ?thesis
      using False by (simp add: spec_factor_arguments_def map_add_def)
  qed
qed

text \<open>
  C5, amended. For a constructed product and arguments with distinct names: when every
  argument that is not a float can be split, the dispatcher calls factor \<open>0, 1, \<dots>\<close>
  in order, each with the arguments the specification assigns to it, in which every float
  argument appears unchanged and every other argument as its piece \<open>i\<close>. The split
  yields \<open>n\<close> pieces for an intrinsic point and \<open>n + 1\<close> for an extrinsic one (for
  \<open>n \<ge> 1\<close> factors), of which the first \<open>n\<close> are used. When an argument that is
  not a float cannot be split, such as an integer, the dispatcher raises before any
  factor is called.
\<close>

theorem dispatch_arguments:
  assumes init: "ProductManifold_init ms isi tag jobs = Inr self"
    and keys: "distinct (map fst args)"
  shows "((\<forall>(key, v)\<in>set args. \<not> is_float v \<longrightarrow>
             (\<exists>ps. gs_split v (cum_index (dims self) intrinsic) = Inr ps)) \<longrightarrow>
          iterate_over_manifolds self func args intrinsic
            = t_mapM (\<lambda>i. get_method i (ms ! i) func
                        (spec_factor_arguments (cum_index (dims self) intrinsic) args i))
                [0..<length ms])
       \<and> (\<forall>(key, v)\<in>set args.
            map_of (spec_factor_arguments (cum_index (dims self) intrinsic) args i) key
              = Some (if is_float v then v
                      else PyArray (the_pieces v (cum_index (dims self) intrinsic) ! i)))
       \<and> (\<forall>(key, v)\<in>set args. \<forall>ps.
            gs_split v (cum_index (dims self) intrinsic) = Inr ps \<longrightarrow>
            length ps = (if intrinsic then length ms - 1 + 1 else length ms + 1))
       \<and> ((\<exists>(key, v)\<in>set args. \<not> is_float v
              \<and> (\<exists>e. gs_split v (cum_index (dims self) intrinsic) = Inl e)) \<longrightarrow>
          (\<exists>e. iterate_over_manifolds self func args intrinsic = ([], Inl e)))"
proof -
  let ?ci = "cum_index (dims self) intrinsic"
  from init_dims [OF init] have d: "dims self = map dim ms" and m: "manifolds self = ms"
    by simp_all
  have len: "length (dims self) = length (manifolds self)"
    by (simp add: d m)
  have a: "(\<forall>(key, v)\<in>set args. \<not> is_float v \<longrightarrow> (\<exists>ps. gs_split v ?ci = Inr ps)) \<longrightarrow>
          iterate_over_manifolds self func args intrinsic
            = t_mapM (\<lambda>i. get_method i (ms ! i) func (spec_factor_arguments ?ci args i))
                [0..<length ms]"
    using dispatch_eq [OF len keys, of intrinsic func] by (simp add: m)
  have b: "\<forall>(key, v)\<in>set args. map_of (spec_factor_arguments ?ci args i) key
              = Some (if is_float v then v else PyArray (the_pieces v ?ci ! i))"
    using spec_factor_arguments_lookup [OF keys] by blast
  have c: "\<forall>(key, v)\<in>set args. \<forall>ps. gs_split v ?ci = Inr ps \<longrightarrow>
            length ps = (if intrinsic then length ms - 1 + 1 else length ms + 1)"
    by (auto dest!: gs_split_length simp: cum_index_length d)
  have e: "(\<exists>(key, v)\<in>set args. \<not> is_float v \<and> (\<exists>e. gs_split v ?ci = Inl e)) \<longrightarrow>
          (\<exists>e. iterate_over_manifolds self func args intrinsic = ([], Inl e))"
    using split_failure_raises [of _ _ args self intrinsic _ func] by blast
  from a b c e show ?thesis by blast
qed

lemma product_2_3_belongs_dispatch:
  "t_mapM (\<lambda>i. get_method i
                 ([example_factor 2 [2] plain_methods, example_factor 3 [3] plain_methods] ! i)
                 ''belongs''
                 (spec_factor_arguments [2] [(''point'', PyArray point_5), (''atol'', PyFloat 0.5)] i))
      [0..<2]
   = ([Call 0 ''belongs'' [(''point'', PyArray (NdArray [2] [In 1, In 2])), (''atol'', PyFloat 0.5)],
       Call 1 ''belongs'' [(''point'', PyArray (NdArray [3] [In 3, In 4, In 5])), (''atol'', PyFloat 0.5)]],
      Inr [PyArray (NdArray [] [Bo True]), PyArray (NdArray [] [Bo True])])"
proof -
  have sp: "the_pieces (PyArray point_5) [2] = [NdArray [2] [In 1, In 2], NdArray [3] [In 3, In 4, In 5]]"
    by (simp add: the_pieces_def gs_split_def point_5_def slice_last_def slice_bound_def Let_def)
  have u: "[0..<2] = [0, Suc 0]"
    by (simp add: upt_rec)
  show ?thesis
    unfolding u
    by (simp add: spec_factor_arguments_def sp is_float_def get_method_def example_factor_def
        plain_methods_def nonzero_point_def nonzero_rows_def t_bind_def t_return_def)
qed

text \<open>
  C5, amended, on the product of dimensions 2 and 3, for \<open>belongs\<close> with a point of
  width 5 and the tolerance 0.5.
\<close>

theorem dispatch_arguments_witness:
  "ProductManifold_init
     [example_factor 2 [2] plain_methods, example_factor 3 [3] plain_methods]
     always_intrinsic ''vector'' 1 = Inr product_2_3
 \<and> distinct (map fst [(''point'', PyArray point_5), (''atol'', PyFloat 0.5)])
 \<and> gs_split (PyArray point_5) (cum_index (dims product_2_3) True)
     = Inr [NdArray [2] [In 1, In 2], NdArray [3] [In 3, In 4, In 5]]
 \<and> iterate_over_manifolds product_2_3 ''belongs''
       [(''point'', PyArray point_5), (''atol'', PyFloat 0.5)] True
     = ([Call 0 ''belongs'' [(''point'', PyArray (NdArray [2] [In 1, In 2])), (''atol'', PyFloat 0.5)],
         Call 1 ''belongs'' [(''point'', PyArray (NdArray [3] [In 3, In 4, In 5])), (''atol'', PyFloat 0.5)]],
        Inr [PyArray (NdArray [] [Bo True]), PyArray (NdArray [] [Bo True])])"
proof -
  have keys: "distinct (map fst [(''point'', PyArray point_5), (''atol'', PyFloat 0.5)])"
    by simp
  have ci: "cum_index (dims product_2_3) True = [2]"
    by (simp add: product_2_3_def cum_index_def gs_cumsum_def)
  have sp: "gs_split (PyArray point_5) (cum_index (dims product_2_3) True)
     = Inr [NdArray [2] [In 1, In 2], NdArray [3] [In 3, In 4, In 5]]"
    unfolding ci
    by (simp add: gs_split_def point_5_def slice_last_def slice_bound_def Let_def)
  have len2: "length [example_factor 2 [2] plain_methods, example_factor 3 [3] plain_methods] = 2"
    by simp
  have ok: "\<forall>(key, v)\<in>set [(''point'', PyArray point_5), (''atol'', PyFloat 0.5)].
              \<not> is_float v \<longrightarrow> (\<exists>ps. gs_split v (cum_index (dims product_2_3) True) = Inr ps)"
    using sp by (simp add: is_float_def)
  have "iterate_over_manifolds product_2_3 ''belongs''
           [(''point'', PyArray point_5), (''atol'', PyFloat 0.5)] True
        = t_mapM (\<lambda>i. get_method i
                 ([example_factor 2 [2] plain_methods, example_factor 3 [3] plain_methods] ! i)
                 ''belongs''
                 (spec_factor_arguments (cum_index (dims product_2_3) True)
                    [(''point'', PyArray point_5), (''atol'', PyFloat 0.5)] i))
            [0..<length [example_factor 2 [2] plain_methods, example_factor 3 [3] plain_methods]]"
    using dispatch_arguments [OF product_2_3_init keys, where intrinsic = True
        and func = "''belongs''"] ok
    by blast
  then have run: "iterate_over_manifolds product_2_3 ''belongs''
       [(''point'', PyArray point_5), (''atol'', PyFloat 0.5)] True
     = ([Call 0 ''belongs'' [(''point'', PyArray (NdArray [2] [In 1, In 2])), (''atol'', PyFloat 0.5)],
         Call 1 ''belongs'' [(''point'', PyArray (NdArray [3] [In 3, In 4, In 5])), (''atol'', PyFloat 0.5)]],
        Inr [PyArray (NdArray [] [Bo True]), PyArray (NdArray [] [Bo True])])"
    by (simp only: ci len2 product_2_3_belongs_dispatch)
  from product_2_3_init keys sp run show ?thesis by blast
qed

text \<open>
  C5 as stated fails: for two factors an extrinsic point of width 7 is split into three
  pieces, not one per factor, and an integer tolerance is not passed on but makes the
  dispatcher raise.
\<close>

theorem dispatch_extra_piece_and_integer:
  "length (manifolds product_2_3) = 2
 \<and> gs_split (PyArray point_7) (cum_index (dims product_2_3) False)
     = Inr [NdArray [3] [In 1, In 2, In 3], NdArray [4] [In 4, In 5, In 6, In 7], NdArray [0] []]
 \<and> iterate_over_manifolds product_2_3 ''belongs''
       [(''point'', PyArray point_5), (''atol'', PyInt 1)] True = ([], Inl TypeError)"
proof -
  have ci: "cum_index (dims product_2_3) False = [3, 7]" "cum_index (dims product_2_3) True = [2]"
    by (simp_all add: product_2_3_def cum_index_def gs_cumsum_def)
  have a: "gs_split (PyArray point_7) (cum_index (dims product_2_3) False)
     = Inr [NdArray [3] [In 1, In 2, In 3], NdArray [4] [In 4, In 5, In 6, In 7], NdArray [0] []]"
    unfolding ci
    by (simp add: gs_split_def point_7_def slice_last_def slice_bound_def Let_def)
  have sp: "gs_split (PyArray point_5) [2]
              = Inr [NdArray [2] [In 1, In 2], NdArray [3] [In 3, In 4, In 5]]"
    by (simp add: gs_split_def point_5_def slice_last_def slice_bound_def Let_def)
  have b: "iterate_over_manifolds product_2_3 ''belongs''
       [(''point'', PyArray point_5), (''atol'', PyInt 1)] True = ([], Inl TypeError)"
    unfolding iterate_over_manifolds_def ci
    by (simp add: sp is_float_def gs_split_def t_raise_def point_5_def)
  have c: "length (manifolds product_2_3) = 2"
    by (simp add: product_2_3_def)
  from a b c show ?thesis by simp
qed

lemma concat_singletons: "(\<And>x. x \<in> set xs \<Longrightarrow> f x = [g x]) \<Longrightarrow> concat (map f xs) = map g xs"
  by (induction xs) auto

lemma get_method_Some:
  "methods m name = Some f \<Longrightarrow> get_method i m name kw = ([Call i name kw], f kw)"
  by (simp add: get_method_def)

lemma belongs_propagates:
  assumes "default_point_type self = ''vector''"
    and "is_intrinsic self point = Inr intrinsic"
    and "iterate_over_manifolds self ''belongs''
           [(''point'', PyArray point), (''atol'', atol)] intrinsic = (cs, Inl e)"
  shows "ProductManifold_belongs self point atol = (cs, Inl e)"
  using assms
  by (simp add: ProductManifold_belongs_def belongs_per_factor_def t_bind_def t_lift_def)

text \<open>
  C3, amended. For a constructed product and arguments that can be split: when the
  operation of factor \<open>k\<close> raises \<open>e\<close> and the factors before it return, the
  dispatcher made the calls on factors \<open>0, \<dots>, k\<close> and raises \<open>e\<close> itself, with no
  index or operation name attached. Whenever the operation of some factor raises, the
  dispatcher raises and returns no list of results, and so does \<open>belongs\<close>.
\<close>

theorem dispatch_failure:
  assumes init: "ProductManifold_init ms isi tag jobs = Inr self"
    and keys: "distinct (map fst args)"
    and ok: "\<forall>(key, v)\<in>set args. \<not> is_float v \<longrightarrow>
               (\<exists>ps. gs_split v (cum_index (dims self) intrinsic) = Inr ps)"
  shows "(k < length ms
          \<and> (\<forall>i<k. \<exists>g y. methods (ms ! i) func = Some g
                 \<and> g (spec_factor_arguments (cum_index (dims self) intrinsic) args i) = Inr y)
          \<and> methods (ms ! k) func = Some f
          \<and> f (spec_factor_arguments (cum_index (dims self) intrinsic) args k) = Inl e \<longrightarrow>
          iterate_over_manifolds self func args intrinsic
            = (map (\<lambda>i. Call i func (spec_factor_arguments (cum_index (dims self) intrinsic) args i))
                 [0..<Suc k],
               Inl e))
       \<and> ((\<exists>j<length ms. \<exists>e'.
              snd (get_method j (ms ! j) func
                     (spec_factor_arguments (cum_index (dims self) intrinsic) args j)) = Inl e') \<longrightarrow>
          (\<exists>cs e'. iterate_over_manifolds self func args intrinsic = (cs, Inl e')))
       \<and> (tag = ''vector'' \<and> isi point = Inr intrinsic
          \<and> iterate_over_manifolds self ''belongs''
               [(''point'', PyArray point), (''atol'', atol)] intrinsic = (cs, Inl e) \<longrightarrow>
          ProductManifold_belongs self point atol = (cs, Inl e))"
proof -
  let ?ci = "cum_index (dims self) intrinsic"
  let ?F = "\<lambda>i. get_method i (ms ! i) func (spec_factor_arguments ?ci args i)"
  from init_dims [OF init] have d: "dims self = map dim ms" and m: "manifolds self = ms"
    by simp_all
  have len: "length (dims self) = length (manifolds self)"
    by (simp add: d m)
  have eq: "iterate_over_manifolds self func args intrinsic = t_mapM ?F [0..<length ms]"
    using dispatch_eq [OF len keys ok, of func] by (simp add: m)
  have a: "iterate_over_manifolds self func args intrinsic
            = (map (\<lambda>i. Call i func (spec_factor_arguments ?ci args i)) [0..<Suc k], Inl e)"
    if k: "k < length ms"
      and before: "\<forall>i<k. \<exists>g y. methods (ms ! i) func = Some g
                     \<and> g (spec_factor_arguments ?ci args i) = Inr y"
      and fk: "methods (ms ! k) func = Some f" "f (spec_factor_arguments ?ci args k) = Inl e"
  proof -
    have 1: "k < length [0..<length ms]" using k by simp
    have 2: "\<forall>i<k. \<exists>y. snd (?F ([0..<length ms] ! i)) = Inr y"
      using before k by (auto simp: get_method_Some)
    have 3: "snd (?F ([0..<length ms] ! k)) = Inl e"
      using fk k by (simp add: get_method_Some)
    have tr: "concat (map (\<lambda>i. fst (?F i)) [0..<Suc k])
                = map (\<lambda>i. Call i func (spec_factor_arguments ?ci args i)) [0..<Suc k]"
    proof (rule concat_singletons)
      fix i assume "i \<in> set [0..<Suc k]"
      then have "i < k \<or> i = k" by auto
      then show "fst (?F i) = [Call i func (spec_factor_arguments ?ci args i)]"
        using before fk by (auto simp: get_method_Some)
    qed
    have tk: "take (Suc k) [0..<length ms] = [0..<Suc k]"
      using k by (simp add: take_upt)
    from t_mapM_first_failure [OF 1 2 3] show ?thesis
      unfolding eq tk tr .
  qed
  have b: "\<exists>cs e'. iterate_over_manifolds self func args intrinsic = (cs, Inl e')"
    if "\<exists>j<length ms. \<exists>e'. snd (?F j) = Inl e'"
  proof -
    from that obtain j e' where j: "j < length ms" "snd (?F j) = Inl e'" by blast
    obtain cs r where run: "t_mapM ?F [0..<length ms] = (cs, r)"
      by (cases "t_mapM ?F [0..<length ms]")
    show ?thesis
    proof (cases r)
      case (Inl e'')
      with run eq show ?thesis by simp
    next
      case (Inr vals)
      with run t_mapM_Inr [of ?F "[0..<length ms]" cs vals] j show ?thesis by auto
    qed
  qed
  have isi: "is_intrinsic self = isi" and tg: "default_point_type self = tag"
    using init by (auto simp: ProductManifold_init_def Let_def split: sum.splits if_splits)
  have c: "ProductManifold_belongs self point atol = (cs, Inl e)"
    if "tag = ''vector''" "isi point = Inr intrinsic"
      "iterate_over_manifolds self ''belongs''
         [(''point'', PyArray point), (''atol'', atol)] intrinsic = (cs, Inl e)"
    using that belongs_propagates [of self point intrinsic atol cs e] by (simp add: isi tg)
  from a b c show ?thesis by blast
qed

lemma failing_product_init:
  "ProductManifold_init
     [example_factor 2 [2] plain_methods, example_factor 3 [3] failing_methods]
     always_intrinsic ''vector'' 1 = Inr failing_product"
  by (simp add: ProductManifold_init_def check_parameter_accepted_values_def first_axis_def
      example_factor_def failing_product_def)

lemma point_5_pieces:
  "gs_split (PyArray point_5) [2] = Inr [NdArray [2] [In 1, In 2], NdArray [3] [In 3, In 4, In 5]]"
  by (simp add: gs_split_def point_5_def slice_last_def slice_bound_def Let_def)

text \<open>C3, amended, on a product whose second factor raises in \<open>belongs\<close>.\<close>

theorem dispatch_failure_witness:
  "ProductManifold_init
     [example_factor 2 [2] plain_methods, example_factor 3 [3] failing_methods]
     always_intrinsic ''vector'' 1 = Inr failing_product
 \<and> failing [(''point'', PyArray (NdArray [3] [In 3, In 4, In 5])), (''atol'', PyFloat 0.5)]
     = Inl (FactorError ''boom'')
 \<and> iterate_over_manifolds failing_product ''belongs''
       [(''point'', PyArray point_5), (''atol'', PyFloat 0.5)] True
     = ([Call 0 ''belongs'' [(''point'', PyArray (NdArray [2] [In 1, In 2])), (''atol'', PyFloat 0.5)],
         Call 1 ''belongs'' [(''point'', PyArray (NdArray [3] [In 3, In 4, In 5])), (''atol'', PyFloat 0.5)]],
        Inl (FactorError ''boom''))"
proof -
  let ?args = "[(''point'', PyArray point_5), (''atol'', PyFloat 0.5)]"
  let ?ms = "[example_factor 2 [2] plain_methods, example_factor 3 [3] failing_methods]"
  have keys: "distinct (map fst ?args)"
    by simp
  have ci: "cum_index (dims failing_product) True = [2]"
    by (simp add: failing_product_def cum_index_def gs_cumsum_def)
  have ok: "\<forall>(key, v)\<in>set ?args.
              \<not> is_float v \<longrightarrow> (\<exists>ps. gs_split v (cum_index (dims failing_product) True) = Inr ps)"
    unfolding ci using point_5_pieces by (simp add: is_float_def)
  have sp0: "spec_factor_arguments [2] ?args 0
               = [(''point'', PyArray (NdArray [2] [In 1, In 2])), (''atol'', PyFloat 0.5)]"
    by (simp add: spec_factor_arguments_def the_pieces_def point_5_pieces is_float_def)
  have sp1: "spec_factor_arguments [2] ?args 1
               = [(''point'', PyArray (NdArray [3] [In 3, In 4, In 5])), (''atol'', PyFloat 0.5)]"
    by (simp add: spec_factor_arguments_def the_pieces_def point_5_pieces is_float_def)
  have f: "failing [(''point'', PyArray (NdArray [3] [In 3, In 4, In 5])), (''atol'', PyFloat 0.5)]
     = Inl (FactorError ''boom'')"
    by (simp add: failing_def)
  have h: "1 < length ?ms
          \<and> (\<forall>i<1. \<exists>g y. methods (?ms ! i) ''belongs'' = Some g
                 \<and> g (spec_factor_arguments (cum_index (dims failing_product) True) ?args i) = Inr y)
          \<and> methods (?ms ! 1) ''belongs'' = Some failing
          \<and> failing (spec_factor_arguments (cum_index (dims failing_product) True) ?args 1)
              = Inl (FactorError ''boom'')"
    unfolding ci using sp0
    by (simp add: example_factor_def plain_methods_def failing_methods_def failing_def
        nonzero_point_def)
  have "iterate_over_manifolds failing_product ''belongs'' ?args True
          = (map (\<lambda>i. Call i ''belongs''
                   (spec_factor_arguments (cum_index (dims failing_product) True) ?args i))
               [0..<Suc 1],
             Inl (FactorError ''boom''))"
    using dispatch_failure [OF failing_product_init keys ok, where k = 1 and func = "''belongs''"
        and f = failing and e = "FactorError ''boom''"] h
    by blast
  then have run: "iterate_over_manifolds failing_product ''belongs'' ?args True
     = ([Call 0 ''belongs'' [(''point'', PyArray (NdArray [2] [In 1, In 2])), (''atol'', PyFloat 0.5)],
         Call 1 ''belongs'' [(''point'', PyArray (NdArray [3] [In 3, In 4, In 5])), (''atol'', PyFloat 0.5)]],
        Inl (FactorError ''boom''))"
    using sp0 sp1 by (simp add: ci upt_rec)
  from failing_product_init f run show ?thesis by blast
qed

text \<open>
  C3 as stated fails: the exception of the second factor reaches the caller as it is,
  not inside a FactorOperationError that names factor 1 and \<open>belongs\<close>.
\<close>

theorem failure_is_not_wrapped:
  "iterate_over_manifolds failing_product ''belongs''
       [(''point'', PyArray point_5), (''atol'', PyFloat 0.5)] True
     = ([Call 0 ''belongs'' [(''point'', PyArray (NdArray [2] [In 1, In 2])), (''atol'', PyFloat 0.5)],
         Call 1 ''belongs'' [(''point'', PyArray (NdArray [3] [In 3, In 4, In 5])), (''atol'', PyFloat 0.5)]],
        Inl (FactorError ''boom''))
 \<and> ProductManifold_belongs failing_product point_5 (PyFloat 0.5)
     = ([Call 0 ''belongs'' [(''point'', PyArray (NdArray [2] [In 1, In 2])), (''atol'', PyFloat 0.5)],
         Call 1 ''belongs'' [(''point'', PyArray (NdArray [3] [In 3, In 4, In 5])), (''atol'', PyFloat 0.5)]],
        Inl (FactorError ''boom''))
 \<and> snd (ProductManifold_belongs failing_product point_5 (PyFloat 0.5))
     \<noteq> Inl (FactorOperationError 1 ''belongs'' (FactorError ''boom''))"
proof -
  have ci: "cum_index (dims failing_product) True = [2]"
    by (simp add: failing_product_def cum_index_def gs_cumsum_def)
  have run: "iterate_over_manifolds failing_product ''belongs''
       [(''point'', PyArray point_5), (''atol'', PyFloat 0.5)] True
     = ([Call 0 ''belongs'' [(''point'', PyArray (NdArray [2] [In 1, In 2])), (''atol'', PyFloat 0.5)],
         Call 1 ''belongs'' [(''point'', PyArray (NdArray [3] [In 3, In 4, In 5])), (''atol'', PyFloat 0.5)]],
        Inl (FactorError ''boom''))"
    unfolding iterate_over_manifolds_def ci
    by (simp add: point_5_pieces is_float_def failing_product_def upt_rec dict_merge_def
        get_method_def example_factor_def plain_methods_def failing_methods_def failing_def
        nonzero_point_def t_bind_def t_return_def)
  have bel: "ProductManifold_belongs failing_product point_5 (PyFloat 0.5)
     = ([Call 0 ''belongs'' [(''point'', PyArray (NdArray [2] [In 1, In 2])), (''atol'', PyFloat 0.5)],
         Call 1 ''belongs'' [(''point'', PyArray (NdArray [3] [In 3, In 4, In 5])), (''atol'', PyFloat 0.5)]],
        Inl (FactorError ''boom''))"
  proof (rule belongs_propagates [where intrinsic = True])
    show "default_point_type failing_product = ''vector''"
      by (simp add: failing_product_def)
    show "is_intrinsic failing_product point_5 = Inr True"
      by (simp add: failing_product_def always_intrinsic_def)
  qed (rule run)
  from run bel show ?thesis by simp
qed

section \<open>Stacking and reducing\<close>

lemma last_axis: "normalize_axis_index (- 1) (Suc n) = Inr n"
  by (simp add: normalize_axis_index_def)

lemma stack_Inr:
  assumes "gs_stack vals axis = Inr st"
  shows "vals \<noteq> [] \<and> (\<forall>v\<in>set vals. arr_shape (asarray v) = arr_shape (asarray (hd vals)))"
proof (cases "vals = []")
  case True
  with assms show ?thesis by (simp add: gs_stack_def)
next
  case False
  then have hd_eq: "hd (map asarray vals) = asarray (hd vals)"
    by (simp add: hd_map)
  have same: "list_all (\<lambda>a. arr_shape a = arr_shape (hd (map asarray vals))) (map asarray vals)"
  proof (rule ccontr)
    assume "\<not> ?thesis"
    with False have "gs_stack vals axis = Inl ValueError"
      by (simp add: gs_stack_def Let_def)
    with assms show False by simp
  qed
  have "arr_shape (asarray v) = arr_shape (asarray (hd vals))" if "v \<in> set vals" for v
  proof -
    from that have "asarray v \<in> set (map asarray vals)" by simp
    with same have "arr_shape (asarray v) = arr_shape (hd (map asarray vals))"
      unfolding list_all_iff by blast
    then show ?thesis by (simp only: hd_eq)
  qed
  with False show ?thesis by blast
qed

lemma stack_last:
  assumes "vals \<noteq> []" and "\<forall>v\<in>set vals. arr_shape (asarray v) = s"
  shows "gs_stack vals (- 1)
       = Inr (NdArray (s @ [length vals])
                (map (\<lambda>t. arr_data (asarray (vals ! (t mod length vals))) ! (t div length vals))
                   [0..<prod_list s * length vals]))"
proof -
  have hd: "arr_shape (hd (map asarray vals)) = s"
    using assms by (cases vals) auto
  have same: "list_all (\<lambda>a. arr_shape a = arr_shape (hd (map asarray vals))) (map asarray vals)"
    using assms(2) by (simp add: hd list_all_iff)
  have nth: "map asarray vals ! (t mod length vals) = asarray (vals ! (t mod length vals))" for t
    using assms(1) by (simp add: nth_map)
  show ?thesis
    using assms(1) same
    by (simp add: gs_stack_def Let_def hd last_axis nth)
qed

lemma all_last:
  "gs_all (NdArray (s @ [m]) d) (- 1)
     = Inr (NdArray s (map (\<lambda>t. Bo (list_all (\<lambda>j. truthy (d ! (t * m + j))) [0..<m]))
                         [0..<prod_list s]))"
  by (simp add: gs_all_def Let_def last_axis nth_append)

lemma stacked_element:
  assumes "t < n" and "j < m"
  shows "map f [0..<n * m] ! (t * m + j) = f (t * m + j)"
proof -
  have "t * m + j < Suc t * m" using assms(2) by simp
  also have "\<dots> \<le> n * m" using assms(1) by (intro mult_le_mono1) simp
  finally show ?thesis by simp
qed

lemma all_of_stack:
  assumes "vals \<noteq> []" and "\<forall>v\<in>set vals. arr_shape (asarray v) = s"
  shows "(case gs_stack vals (- 1) of Inl e \<Rightarrow> Inl e | Inr stacked \<Rightarrow> gs_all stacked (- 1))
       = Inr (all_factors s vals)"
proof -
  let ?m = "length vals"
  let ?d = "map (\<lambda>t. arr_data (asarray (vals ! (t mod ?m))) ! (t div ?m)) [0..<prod_list s * ?m]"
  have m: "0 < ?m" using assms(1) by simp
  have elem: "list_all (\<lambda>j. truthy (?d ! (t * ?m + j))) [0..<?m]
            = (\<forall>v\<in>set vals. truthy (arr_data (asarray v) ! t))"
    if t: "t < prod_list s" for t
  proof -
    have "?d ! (t * ?m + j) = arr_data (asarray (vals ! j)) ! t" if j: "j < ?m" for j
    proof -
      have idx: "(t * ?m + j) mod ?m = j" "(t * ?m + j) div ?m = t"
        using j m by simp_all
      have "?d ! (t * ?m + j)
              = arr_data (asarray (vals ! ((t * ?m + j) mod ?m))) ! ((t * ?m + j) div ?m)"
        by (rule stacked_element [OF t j])
      then show ?thesis by (simp only: idx)
    qed
    then have "list_all (\<lambda>j. truthy (?d ! (t * ?m + j))) [0..<?m]
             = (\<forall>j<?m. truthy (arr_data (asarray (vals ! j)) ! t))"
      by (auto simp: list_all_iff)
    also have "\<dots> = (\<forall>v\<in>set vals. truthy (arr_data (asarray v) ! t))"
      by (simp add: all_set_conv_all_nth)
    finally show ?thesis .
  qed
  have "map (\<lambda>t. Bo (list_all (\<lambda>j. truthy (?d ! (t * ?m + j))) [0..<?m])) [0..<prod_list s]
      = map (\<lambda>t. Bo (\<forall>v\<in>set vals. truthy (arr_data (asarray v) ! t))) [0..<prod_list s]"
    by (rule map_cong) (simp_all add: elem)
  then show ?thesis
    unfolding stack_last [OF assms] all_factors_def
    by (simp add: all_last)
qed

lemma all_of_stack_Inr:
  assumes "(case gs_stack vals (- 1) of Inl e \<Rightarrow> Inl e | Inr stacked \<Rightarrow> gs_all stacked (- 1))
             = Inr r"
  shows "vals \<noteq> [] \<and> (\<forall>v\<in>set vals. arr_shape (asarray v) = arr_shape r)"
proof -
  from assms obtain st where st: "gs_stack vals (- 1) = Inr st"
    by (auto split: sum.splits)
  from stack_Inr [OF st] have ne: "vals \<noteq> []"
    and sh: "\<forall>v\<in>set vals. arr_shape (asarray v) = arr_shape (asarray (hd vals))"
    by blast+
  have "(case gs_stack vals (- 1) of Inl e \<Rightarrow> Inl e | Inr stacked \<Rightarrow> gs_all stacked (- 1))
          = Inr (all_factors (arr_shape (asarray (hd vals))) vals)"
    by (rule all_of_stack [OF ne sh])
  with assms have "r = all_factors (arr_shape (asarray (hd vals))) vals"
    by (simp only: sum.inject)
  then have "arr_shape r = arr_shape (asarray (hd vals))"
    by (simp add: all_factors_def)
  with ne sh show ?thesis by (simp only: simp_thms)
qed

lemma all_factors_element:
  "t < prod_list s \<Longrightarrow>
     truthy (arr_data (all_factors s vals) ! t) = (\<forall>v\<in>set vals. truthy (arr_data (asarray v) ! t))"
  by (simp add: all_factors_def)

lemma call_method_get_method:
  "snd (call_method i m name (Inr kw)) = snd (get_method i m name kw)"
  by (simp add: call_method_def get_method_def t_raise_def split: option.splits)

lemma enumerate_results:
  assumes "t_mapM (\<lambda>(i, m). F i m) (enumerate 0 ms) = (cs, Inr vals)"
  shows "length vals = length ms \<and> (\<forall>i<length ms. snd (F i (ms ! i)) = Inr (vals ! i))"
proof -
  from t_mapM_Inr [OF assms]
  have len: "length vals = length ms"
    and each: "\<forall>i<length ms. snd ((\<lambda>(i, m). F i m) (enumerate 0 ms ! i)) = Inr (vals ! i)"
    by simp_all
  have "snd (F i (ms ! i)) = Inr (vals ! i)" if "i < length ms" for i
    using each that by (simp add: nth_enumerate_eq)
  with len show ?thesis by simp
qed

lemma belongs_per_factor_results:
  assumes run: "belongs_per_factor self point atol = (cs, Inr vals)"
  shows "length vals = length (manifolds self)
       \<and> (\<forall>i<length (manifolds self).
            snd (call_method i (manifolds self ! i) ''belongs''
                   (belongs_arguments self point atol i)) = Inr (vals ! i))"
proof (cases "default_point_type self = ''vector''")
  case True
  from run True obtain intrinsic where
    isi: "is_intrinsic self point = Inr intrinsic"
    and it: "iterate_over_manifolds self ''belongs''
               [(''point'', PyArray point), (''atol'', atol)] intrinsic = (cs, Inr vals)"
    by (cases "is_intrinsic self point")
      (auto simp: belongs_per_factor_def t_bind_def t_lift_def split: prod.splits)
  have keys: "distinct (map fst [(''point'', PyArray point), (''atol'', atol)])"
    by simp
  from dispatch_Inr [OF it keys] True isi show ?thesis
    by (simp add: belongs_arguments_def call_method_get_method)
next
  case False
  with run have
    "t_mapM (\<lambda>(i, space_i). call_method i space_i ''belongs''
               (case index_factor point i of
                  Inl e \<Rightarrow> Inl e
                | Inr p \<Rightarrow> Inr [(''point'', PyArray p), (''atol'', atol)]))
       (enumerate 0 (manifolds self)) = (cs, Inr vals)"
    by (simp add: belongs_per_factor_def)
  from enumerate_results [OF this] False show ?thesis
    by (simp add: belongs_arguments_def)
qed

lemma is_tangent_per_factor_results:
  assumes run: "is_tangent_per_factor self vector base_point atol = (cs, Inr vals)"
  shows "length vals = length (manifolds self)
       \<and> (\<forall>i<length (manifolds self).
            snd (call_method i (manifolds self ! i) ''is_tangent''
                   (is_tangent_arguments self vector base_point atol i)) = Inr (vals ! i))"
proof (cases "default_point_type self = ''vector''")
  case True
  from run True obtain intrinsic where
    isi: "is_intrinsic self base_point = Inr intrinsic"
    and it: "iterate_over_manifolds self ''is_tangent''
               [(''base_point'', PyArray base_point), (''vector'', PyArray vector),
                (''atol'', atol)] intrinsic = (cs, Inr vals)"
    by (cases "is_intrinsic self base_point")
      (auto simp: is_tangent_per_factor_def t_bind_def t_lift_def split: prod.splits)
  have keys: "distinct (map fst [(''base_point'', PyArray base_point),
                                 (''vector'', PyArray vector), (''atol'', atol)])"
    by simp
  from dispatch_Inr [OF it keys] True isi show ?thesis
    by (simp add: is_tangent_arguments_def call_method_get_method)
next
  case False
  with run have
    "t_mapM (\<lambda>(i, space_i). call_method i space_i ''is_tangent''
               (case index_factor vector i of
                  Inl e \<Rightarrow> Inl e
                | Inr v \<Rightarrow>
                    (case index_factor base_point i of
                       Inl e \<Rightarrow> Inl e
                     | Inr p \<Rightarrow> Inr [(''vector'', PyArray v), (''base_point'', PyArray p),
                                      (''atol'', atol)])))
       (enumerate 0 (manifolds self)) = (cs, Inr vals)"
    by (simp add: is_tangent_per_factor_def)
  from enumerate_results [OF this] False show ?thesis
    by (simp add: is_tangent_arguments_def)
qed

lemma reduce_returns:
  assumes "per_factor = (cs, Inr vals)" and "vals \<noteq> []"
    and "\<forall>v\<in>set vals. arr_shape (asarray v) = s"
  shows "t_bind per_factor
           (\<lambda>rs. t_lift (case gs_stack rs (- 1) of
                            Inl e \<Rightarrow> Inl e
                          | Inr stacked \<Rightarrow> gs_all stacked (- 1)))
         = (cs, Inr (all_factors s vals))"
  using all_of_stack [OF assms(2) assms(3)] assms(1)
  by (simp add: t_bind_def t_lift_def)

lemma reduce_returned:
  assumes "t_bind per_factor
             (\<lambda>rs. t_lift (case gs_stack rs (- 1) of
                              Inl e \<Rightarrow> Inl e
                            | Inr stacked \<Rightarrow> gs_all stacked (- 1)))
           = (cs, Inr r)"
  shows "\<exists>vals. per_factor = (cs, Inr vals) \<and> vals \<noteq> []
           \<and> (\<forall>v\<in>set vals. arr_shape (asarray v) = arr_shape r)
           \<and> r = all_factors (arr_shape r) vals"
proof -
  from assms obtain vals where pf: "per_factor = (cs, Inr vals)"
    and red: "(case gs_stack vals (- 1) of Inl e \<Rightarrow> Inl e | Inr stacked \<Rightarrow> gs_all stacked (- 1))
                = Inr r"
    by (cases per_factor) (auto simp: t_bind_def t_lift_def split: sum.splits)
  from all_of_stack_Inr [OF red] have ne: "vals \<noteq> []"
    and sh: "\<forall>v\<in>set vals. arr_shape (asarray v) = arr_shape r"
    by blast+
  from all_of_stack [OF ne sh] red have "r = all_factors (arr_shape r) vals"
    by (simp only: sum.inject)
  with pf ne sh show ?thesis by blast
qed

text \<open>
  C2. \<open>belongs\<close> (and likewise \<open>is_tangent\<close>) first collects one result per factor,
  the result of that factor's own \<open>belongs\<close> on its slice of the point, then stacks
  them on a new last axis and reduces that axis with AND. When the per-factor results
  have one shape, the composite has that shape and each of its elements is the
  conjunction of the corresponding elements of the per-factor results; and whenever the
  composite returns an array, it is this one: an element is true if and only if it is
  true in every factor's result.
\<close>

theorem membership_is_conjunction:
  "(belongs_per_factor self point atol = (cs, Inr vals) \<longrightarrow>
      length vals = length (manifolds self)
    \<and> (\<forall>i<length (manifolds self).
         snd (call_method i (manifolds self ! i) ''belongs''
                (belongs_arguments self point atol i)) = Inr (vals ! i)))
 \<and> (belongs_per_factor self point atol = (cs, Inr vals) \<and> vals \<noteq> []
      \<and> (\<forall>v\<in>set vals. arr_shape (asarray v) = s) \<longrightarrow>
      ProductManifold_belongs self point atol = (cs, Inr (all_factors s vals)))
 \<and> (ProductManifold_belongs self point atol = (cs, Inr r) \<longrightarrow>
      (\<exists>vs. belongs_per_factor self point atol = (cs, Inr vs) \<and> vs \<noteq> []
         \<and> (\<forall>v\<in>set vs. arr_shape (asarray v) = arr_shape r)
         \<and> (\<forall>t<prod_list (arr_shape r).
               truthy (arr_data r ! t) = (\<forall>v\<in>set vs. truthy (arr_data (asarray v) ! t)))))
 \<and> (is_tangent_per_factor self vector base_point atol = (cs', Inr vals') \<longrightarrow>
      length vals' = length (manifolds self)
    \<and> (\<forall>i<length (manifolds self).
         snd (call_method i (manifolds self ! i) ''is_tangent''
                (is_tangent_arguments self vector base_point atol i)) = Inr (vals' ! i)))
 \<and> (is_tangent_per_factor self vector base_point atol = (cs', Inr vals') \<and> vals' \<noteq> []
      \<and> (\<forall>v\<in>set vals'. arr_shape (asarray v) = s') \<longrightarrow>
      ProductManifold_is_tangent self vector base_point atol = (cs', Inr (all_factors s' vals')))
 \<and> (ProductManifold_is_tangent self vector base_point atol = (cs', Inr r') \<longrightarrow>
      (\<exists>vs. is_tangent_per_factor self vector base_point atol = (cs', Inr vs) \<and> vs \<noteq> []
         \<and> (\<forall>v\<in>set vs. arr_shape (asarray v) = arr_shape r')
         \<and> (\<forall>t<prod_list (arr_shape r').
               truthy (arr_data r' ! t) = (\<forall>v\<in>set vs. truthy (arr_data (asarray v) ! t)))))"
proof -
  have b3: "\<exists>vs. belongs_per_factor self point atol = (cs, Inr vs) \<and> vs \<noteq> []
         \<and> (\<forall>v\<in>set vs. arr_shape (asarray v) = arr_shape r)
         \<and> (\<forall>t<prod_list (arr_shape r).
               truthy (arr_data r ! t) = (\<forall>v\<in>set vs. truthy (arr_data (asarray v) ! t)))"
    if "ProductManifold_belongs self point atol = (cs, Inr r)"
  proof -
    from that reduce_returned [of "belongs_per_factor self point atol" cs r]
    obtain vs where vs: "belongs_per_factor self point atol = (cs, Inr vs)" "vs \<noteq> []"
      "\<forall>v\<in>set vs. arr_shape (asarray v) = arr_shape r" "r = all_factors (arr_shape r) vs"
      unfolding ProductManifold_belongs_def by blast
    have "\<forall>t<prod_list (arr_shape r).
            truthy (arr_data r ! t) = (\<forall>v\<in>set vs. truthy (arr_data (asarray v) ! t))"
      using all_factors_element [of _ "arr_shape r" vs] vs(4) by metis
    with vs show ?thesis by blast
  qed
  have t3: "\<exists>vs. is_tangent_per_factor self vector base_point atol = (cs', Inr vs) \<and> vs \<noteq> []
         \<and> (\<forall>v\<in>set vs. arr_shape (asarray v) = arr_shape r')
         \<and> (\<forall>t<prod_list (arr_shape r').
               truthy (arr_data r' ! t) = (\<forall>v\<in>set vs. truthy (arr_data (asarray v) ! t)))"
    if "ProductManifold_is_tangent self vector base_point atol = (cs', Inr r')"
  proof -
    from that reduce_returned [of "is_tangent_per_factor self vector base_point atol" cs' r']
    obtain vs where vs: "is_tangent_per_factor self vector base_point atol = (cs', Inr vs)"
      "vs \<noteq> []" "\<forall>v\<in>set vs. arr_shape (asarray v) = arr_shape r'"
      "r' = all_factors (arr_shape r') vs"
      unfolding ProductManifold_is_tangent_def by blast
    have "\<forall>t<prod_list (arr_shape r').
            truthy (arr_data r' ! t) = (\<forall>v\<in>set vs. truthy (arr_data (asarray v) ! t))"
      using all_factors_element [of _ "arr_shape r'" vs] vs(4) by metis
    with vs show ?thesis by blast
  qed
  have b2: "ProductManifold_belongs self point atol = (cs, Inr (all_factors s vals))"
    if "belongs_per_factor self point atol = (cs, Inr vals)" "vals \<noteq> []"
      "\<forall>v\<in>set vals. arr_shape (asarray v) = s"
    unfolding ProductManifold_belongs_def using that by (rule reduce_returns)
  have t2: "ProductManifold_is_tangent self vector base_point atol
              = (cs', Inr (all_factors s' vals'))"
    if "is_tangent_per_factor self vector base_point atol = (cs', Inr vals')" "vals' \<noteq> []"
      "\<forall>v\<in>set vals'. arr_shape (asarray v) = s'"
    unfolding ProductManifold_is_tangent_def using that by (rule reduce_returns)
  from belongs_per_factor_results [of self point atol cs vals]
    is_tangent_per_factor_results [of self vector base_point atol cs' vals']
    b2 b3 t2 t3
  show ?thesis by blast
qed

lemma point_5_zero_pieces:
  "gs_split (PyArray point_5_zero) [2]
     = Inr [NdArray [2] [In 1, In 2], NdArray [3] [In 0, In 4, In 5]]"
  by (simp add: gs_split_def point_5_zero_def slice_last_def slice_bound_def Let_def)

lemma product_2_3_belongs_per_factor:
  "belongs_per_factor product_2_3 point_5_zero (PyFloat 1)
     = ([Call 0 ''belongs'' [(''point'', PyArray (NdArray [2] [In 1, In 2])), (''atol'', PyFloat 1)],
         Call 1 ''belongs'' [(''point'', PyArray (NdArray [3] [In 0, In 4, In 5])), (''atol'', PyFloat 1)]],
        Inr [PyArray (NdArray [] [Bo True]), PyArray (NdArray [] [Bo False])])"
proof -
  have ci: "cum_index (dims product_2_3) True = [2]"
    by (simp add: product_2_3_def cum_index_def gs_cumsum_def)
  have it: "iterate_over_manifolds product_2_3 ''belongs''
              [(''point'', PyArray point_5_zero), (''atol'', PyFloat 1)] True
     = ([Call 0 ''belongs'' [(''point'', PyArray (NdArray [2] [In 1, In 2])), (''atol'', PyFloat 1)],
         Call 1 ''belongs'' [(''point'', PyArray (NdArray [3] [In 0, In 4, In 5])), (''atol'', PyFloat 1)]],
        Inr [PyArray (NdArray [] [Bo True]), PyArray (NdArray [] [Bo False])])"
    unfolding iterate_over_manifolds_def ci
    by (simp add: point_5_zero_pieces is_float_def product_2_3_def upt_rec dict_merge_def
        get_method_def example_factor_def plain_methods_def nonzero_point_def nonzero_rows_def
        t_bind_def t_return_def)
  have tg: "default_point_type product_2_3 = ''vector''"
    and isi: "is_intrinsic product_2_3 point_5_zero = Inr True"
    by (simp_all add: product_2_3_def always_intrinsic_def)
  show ?thesis
    by (simp add: belongs_per_factor_def tg isi it t_bind_def t_lift_def)
qed

lemma vector_2_3_rows:
  "index_factor vector_2_3 0 = Inr (NdArray [3] [In 1, In 0, In 3])"
  "index_factor vector_2_3 (Suc 0) = Inr (NdArray [3] [In 4, In 5, In 6])"
  "index_factor base_point_2_3 0 = Inr (NdArray [3] [In 1, In 1, In 1])"
  "index_factor base_point_2_3 (Suc 0) = Inr (NdArray [3] [In 1, In 1, In 1])"
  by (simp_all add: index_factor_def vector_2_3_def base_point_2_3_def Let_def)

lemma matrix_3_3_is_tangent_per_factor:
  "is_tangent_per_factor matrix_3_3 vector_2_3 base_point_2_3 (PyFloat 1)
     = ([Call 0 ''is_tangent''
           [(''vector'', PyArray (NdArray [3] [In 1, In 0, In 3])),
            (''base_point'', PyArray (NdArray [3] [In 1, In 1, In 1])), (''atol'', PyFloat 1)],
         Call 1 ''is_tangent''
           [(''vector'', PyArray (NdArray [3] [In 4, In 5, In 6])),
            (''base_point'', PyArray (NdArray [3] [In 1, In 1, In 1])), (''atol'', PyFloat 1)]],
        Inr [PyArray (NdArray [] [Bo False]), PyArray (NdArray [] [Bo True])])"
  by (simp add: is_tangent_per_factor_def matrix_3_3_def enumerate_eq_zip upt_rec vector_2_3_rows
      call_method_def example_factor_def plain_methods_def nonzero_vector_def nonzero_rows_def
      t_bind_def t_return_def)

text \<open>
  C2 on a vector-layout point whose second slice fails \<open>belongs\<close>, and on a
  matrix-layout vector whose first row fails \<open>is_tangent\<close>: both composites are false.
\<close>

theorem membership_is_conjunction_witness:
  "ProductManifold_belongs product_2_3 point_5_zero (PyFloat 1)
     = ([Call 0 ''belongs'' [(''point'', PyArray (NdArray [2] [In 1, In 2])), (''atol'', PyFloat 1)],
         Call 1 ''belongs'' [(''point'', PyArray (NdArray [3] [In 0, In 4, In 5])), (''atol'', PyFloat 1)]],
        Inr (NdArray [] [Bo False]))
 \<and> ProductManifold_is_tangent matrix_3_3 vector_2_3 base_point_2_3 (PyFloat 1)
     = ([Call 0 ''is_tangent''
           [(''vector'', PyArray (NdArray [3] [In 1, In 0, In 3])),
            (''base_point'', PyArray (NdArray [3] [In 1, In 1, In 1])), (''atol'', PyFloat 1)],
         Call 1 ''is_tangent''
           [(''vector'', PyArray (NdArray [3] [In 4, In 5, In 6])),
            (''base_point'', PyArray (NdArray [3] [In 1, In 1, In 1])), (''atol'', PyFloat 1)]],
        Inr (NdArray [] [Bo False]))"
proof -
  let ?bv = "[PyArray (NdArray [] [Bo True]), PyArray (NdArray [] [Bo False])]"
  let ?tv = "[PyArray (NdArray [] [Bo False]), PyArray (NdArray [] [Bo True])]"
  have hb: "?bv \<noteq> [] \<and> (\<forall>v\<in>set ?bv. arr_shape (asarray v) = [])"
    by (simp add: asarray_def)
  have ht: "?tv \<noteq> [] \<and> (\<forall>v\<in>set ?tv. arr_shape (asarray v) = [])"
    by (simp add: asarray_def)
  have vb: "all_factors [] ?bv = NdArray [] [Bo False]"
    by (simp add: all_factors_def asarray_def)
  have vt: "all_factors [] ?tv = NdArray [] [Bo False]"
    by (simp add: all_factors_def asarray_def)
  have b: "ProductManifold_belongs product_2_3 point_5_zero (PyFloat 1)
     = ([Call 0 ''belongs'' [(''point'', PyArray (NdArray [2] [In 1, In 2])), (''atol'', PyFloat 1)],
         Call 1 ''belongs'' [(''point'', PyArray (NdArray [3] [In 0, In 4, In 5])), (''atol'', PyFloat 1)]],
        Inr (all_factors [] ?bv))"
    using membership_is_conjunction [where self = product_2_3 and point = point_5_zero
        and atol = "PyFloat 1" and vals = ?bv and s = "[]"]
      product_2_3_belongs_per_factor hb
    by blast
  have t: "ProductManifold_is_tangent matrix_3_3 vector_2_3 base_point_2_3 (PyFloat 1)
     = ([Call 0 ''is_tangent''
           [(''vector'', PyArray (NdArray [3] [In 1, In 0, In 3])),
            (''base_point'', PyArray (NdArray [3] [In 1, In 1, In 1])), (''atol'', PyFloat 1)],
         Call 1 ''is_tangent''
           [(''vector'', PyArray (NdArray [3] [In 4, In 5, In 6])),
            (''base_point'', PyArray (NdArray [3] [In 1, In 1, In 1])), (''atol'', PyFloat 1)]],
        Inr (all_factors [] ?tv))"
    using membership_is_conjunction [where self = matrix_3_3 and vector = vector_2_3
        and base_point = base_point_2_3 and atol = "PyFloat 1" and vals' = ?tv and s' = "[]"]
      matrix_3_3_is_tangent_per_factor ht
    by blast
  from b t show ?thesis by (simp only: vb vt simp_thms)
qed

text \<open>
  C6 at a single point in matrix layout. For two factors of shape \<open>(3,)\<close> whose
  \<open>regularize\<close> returns its argument, the point of shape \<open>(2, 3)\<close> comes back with
  shape \<open>(3, 2)\<close>, transposed: \<open>regularize\<close> stacks on axis 1. \<open>projection\<close>, which
  stacks on axis -2, returns the point in its layout.
\<close>

theorem regularize_single_matrix_point:
  "ProductManifold_regularize matrix_3_3 vector_2_3
     = ([Call 0 ''regularize'' [(''point'', PyArray (NdArray [3] [In 1, In 0, In 3]))],
         Call 1 ''regularize'' [(''point'', PyArray (NdArray [3] [In 4, In 5, In 6]))]],
        Inr (NdArray [3, 2] [In 1, In 4, In 0, In 5, In 3, In 6]))
 \<and> ProductManifold_projection matrix_3_3 vector_2_3
     = ([Call 0 ''projection'' [(''point'', PyArray (NdArray [3] [In 1, In 0, In 3]))],
         Call 1 ''projection'' [(''point'', PyArray (NdArray [3] [In 4, In 5, In 6]))]],
        Inr vector_2_3)"
proof -
  let ?rows = "[PyArray (NdArray [3] [In 1, In 0, In 3]), PyArray (NdArray [3] [In 4, In 5, In 6])]"
  have st1: "gs_stack ?rows 1 = Inr (NdArray [3, 2] [In 1, In 4, In 0, In 5, In 3, In 6])"
    by code_simp
  have st2: "gs_stack ?rows (- 2) = Inr vector_2_3"
    by code_simp
  have r: "ProductManifold_regularize matrix_3_3 vector_2_3
     = ([Call 0 ''regularize'' [(''point'', PyArray (NdArray [3] [In 1, In 0, In 3]))],
         Call 1 ''regularize'' [(''point'', PyArray (NdArray [3] [In 4, In 5, In 6]))]],
        Inr (NdArray [3, 2] [In 1, In 4, In 0, In 5, In 3, In 6]))"
    by (simp add: ProductManifold_regularize_def matrix_3_3_def enumerate_eq_zip upt_rec
        vector_2_3_rows call_method_def example_factor_def plain_methods_def echo_point_def
        t_bind_def t_return_def t_lift_def st1)
  have p: "ProductManifold_projection matrix_3_3 vector_2_3
     = ([Call 0 ''projection'' [(''point'', PyArray (NdArray [3] [In 1, In 0, In 3]))],
         Call 1 ''projection'' [(''point'', PyArray (NdArray [3] [In 4, In 5, In 6]))]],
        Inr vector_2_3)"
    by (simp add: ProductManifold_projection_def matrix_3_3_def enumerate_eq_zip upt_rec
        vector_2_3_rows call_method_def example_factor_def plain_methods_def echo_point_def
        t_bind_def t_return_def t_lift_def st2)
  from r p show ?thesis by simp
qed

end
